theory Spec2Isabelle
  imports Complex_Main "HOL-Library.AList"
begin

section \<open>JavaScript values used by the three classes\<close>

text \<open>
  Numbers are modelled as reals: every finite IEEE double is a real, and the claims are about
  the arithmetic the code writes down, not about rounding. A value that fails the source's
  test \<^verbatim>\<open>typeof v !== 'number' || isNaN(v)\<close> is \<open>None\<close>; the infinities are outside
  the model. A JavaScript \<^verbatim>\<open>Map\<close> is an association list in insertion order
  (\<open>AList.update\<close> overwrites in place or appends, as \<^verbatim>\<open>Map.set\<close> does).
\<close>

type_synonym jsnum = "real option"

definition truthy_str :: "string option \<Rightarrow> bool" where
  \<comment> \<open>\<^verbatim>\<open>!!s\<close> for a string or undefined: the empty string and undefined are falsy.\<close>
  "truthy_str s = (case s of None \<Rightarrow> False | Some w \<Rightarrow> w \<noteq> [])"

definition num_or :: "real \<Rightarrow> real \<Rightarrow> real" where
  \<comment> \<open>\<^verbatim>\<open>Number(v) || d\<close> for a number v that is not NaN: zero is falsy.\<close>
  "num_or v d = (if v = 0 then d else v)"

section \<open>SemanticField\<close>

record SemanticField =
  semanticGraph :: "(string \<times> (string \<times> real) list) list"
  collocationMatrix :: "(string \<times> real) list"
  readingHistory :: "nat list"
  cleanupCounter :: nat

definition maxHistorySize :: nat where "maxHistorySize = 500"
definition maxSemanticGraphSize :: nat where "maxSemanticGraphSize = 1000"
definition maxCollocationSize :: nat where "maxCollocationSize = 2000"

definition newSemanticField :: SemanticField where
  "newSemanticField =
     \<lparr> semanticGraph = [], collocationMatrix = [], readingHistory = [], cleanupCounter = 0 \<rparr>"

definition getSemanticDistance :: "SemanticField \<Rightarrow> string option \<Rightarrow> string option \<Rightarrow> real" where
  "getSemanticDistance sf word1 word2 =
     (if \<not> (truthy_str word1 \<and> truthy_str word2) then 1
      else case map_of (semanticGraph sf) (the word1) of
             None \<Rightarrow> 1
           | Some connections \<Rightarrow>
               (case map_of connections (the word2) of
                  None \<Rightarrow> 1
                | Some similarity \<Rightarrow> max 0 (1 - similarity)))"

definition bigramKey :: "string \<Rightarrow> string \<Rightarrow> string" where
  \<comment> \<open>the template string \<^verbatim>\<open>`${word1}_${word2}`\<close>\<close>
  "bigramKey word1 word2 = word1 @ ''_'' @ word2"

definition getCollocationStrength :: "SemanticField \<Rightarrow> string option \<Rightarrow> string option \<Rightarrow> real" where
  "getCollocationStrength sf word1 word2 =
     (if \<not> (truthy_str word1 \<and> truthy_str word2) then 0
      else case map_of (collocationMatrix sf) (bigramKey (the word1) (the word2)) of
             None \<Rightarrow> 0
           | Some strength \<Rightarrow> num_or strength 0)"

record force =
  attraction :: real
  repulsion :: real
  lateral :: real

definition generateInterferencePattern :: "real \<Rightarrow> real \<Rightarrow> real \<Rightarrow> force" where
  "generateInterferencePattern spatialDist semanticDist collocationStrength =
     (let safeSpatialDist = max (1/10) (num_or spatialDist (1/10));
          safeSemanticDist = max (1/10) (min 1 (num_or semanticDist 1));
          safeCollocationStrength = max 0 (min 1 (num_or collocationStrength 0));
          interferenceRatio = safeSpatialDist / safeSemanticDist
      in \<lparr> attraction = max 0 (min 1 (safeCollocationStrength - interferenceRatio * (3/10))),
           repulsion = max 0 (min 1 ((interferenceRatio - 1) * (1/2))),
           lateral = max (-1) (min 1 (sin (interferenceRatio * pi) * (2/10))) \<rparr>)"

text \<open>
  The two node arguments of \<open>calculateSemanticForce\<close> are \<open>None\<close> for null or undefined and
  otherwise carry the \<^verbatim>\<open>char\<close> field, which may itself be missing or empty.
\<close>

definition calculateSemanticForce ::
  "SemanticField \<Rightarrow> string option option \<Rightarrow> string option option \<Rightarrow> jsnum \<Rightarrow> force" where
  "calculateSemanticForce sf sourceNode targetNode spatialDistance =
     (case (sourceNode, targetNode, spatialDistance) of
        (Some word1, Some word2, Some d) \<Rightarrow>
          if \<not> (truthy_str word1 \<and> truthy_str word2)
          then \<lparr> attraction = 0, repulsion = 0, lateral = 0 \<rparr>
          else
            (let semanticDistance = getSemanticDistance sf word1 word2;
                 collocationStrength = getCollocationStrength sf word1 word2;
                 interferencePattern =
                   generateInterferencePattern d semanticDistance collocationStrength
             in \<lparr> attraction = max 0 (min 1 (num_or (attraction interferencePattern) 0)),
                  repulsion = max 0 (min 1 (num_or (repulsion interferencePattern) 0)),
                  lateral = max (-1) (min 1 (num_or (lateral interferencePattern) 0)) \<rparr>)
      | _ \<Rightarrow> \<lparr> attraction = 0, repulsion = 0, lateral = 0 \<rparr>)"

section \<open>SpatialIndex\<close>

text \<open>
  An indexed item carries an optional id and an optional position whose coordinates may fail
  the number test. Grid keys \<^verbatim>\<open>`${gx},${gy}`\<close> are pairs of integers and cache keys
  \<^verbatim>\<open>`${Math.round(x)},${Math.round(y)},${Math.round(radius)}`\<close> are triples: the
  rendering of integers is injective.
\<close>

record item =
  item_id :: "string option"
  position :: "(jsnum \<times> jsnum) option"

type_synonym cell_key = "int \<times> int"
type_synonym cache_key = "int \<times> int \<times> int"

record SpatialIndex =
  width :: real
  height :: real
  cellSize :: real
  gridWidth :: int
  gridHeight :: int
  grid :: "(cell_key \<times> item list) list"
  itemCount :: nat
  queryCache :: "(cache_key \<times> item list) list"
  cacheAccessOrder :: "cache_key list"

definition maxCacheSize :: nat where "maxCacheSize = 100"

definition ctor_arg :: "jsnum \<Rightarrow> real \<Rightarrow> real" where
  \<comment> \<open>\<^verbatim>\<open>Math.max(1, Number(v) || d)\<close>\<close>
  "ctor_arg v d = max 1 (case v of None \<Rightarrow> d | Some r \<Rightarrow> num_or r d)"

definition newSpatialIndex :: "jsnum \<Rightarrow> jsnum \<Rightarrow> jsnum \<Rightarrow> SpatialIndex" where
  "newSpatialIndex w h c =
     (let w' = ctor_arg w 800; h' = ctor_arg h 600; c' = ctor_arg c 50
      in \<lparr> width = w', height = h', cellSize = c',
           gridWidth = \<lceil>w' / c'\<rceil>, gridHeight = \<lceil>h' / c'\<rceil>,
           grid = [], itemCount = 0, queryCache = [], cacheAccessOrder = [] \<rparr>)"

definition getGridKey :: "SpatialIndex \<Rightarrow> jsnum \<Rightarrow> jsnum \<Rightarrow> cell_key" where
  "getGridKey s x y =
     (case (x, y) of
        (Some x', Some y') \<Rightarrow>
          (let gridX = \<lfloor>x' / cellSize s\<rfloor>; gridY = \<lfloor>y' / cellSize s\<rfloor>
           in (max 0 (min (gridWidth s - 1) gridX), max 0 (min (gridHeight s - 1) gridY)))
      | _ \<Rightarrow> (0, 0))"

definition allItems :: "SpatialIndex \<Rightarrow> item list" where
  \<comment> \<open>the items of all cells, in the iteration order of \<^verbatim>\<open>grid.values()\<close>\<close>
  "allItems s = concat (map snd (grid s))"

definition findItemById :: "SpatialIndex \<Rightarrow> string option \<Rightarrow> item option" where
  "findItemById s ident =
     (if \<not> truthy_str ident then None else find (\<lambda>it. item_id it = ident) (allItems s))"

definition clearQueryCache :: "SpatialIndex \<Rightarrow> SpatialIndex" where
  "clearQueryCache s = s\<lparr> queryCache := [], cacheAccessOrder := [] \<rparr>"

fun removeFromCells :: "string option \<Rightarrow> (cell_key \<times> item list) list \<Rightarrow> (cell_key \<times> item list) list" where
  "removeFromCells ident [] = []"
| "removeFromCells ident ((key, items) # rest) =
     (let kept = filter (\<lambda>it. item_id it \<noteq> ident) items
      in if kept = [] \<and> items \<noteq> [] then removeFromCells ident rest
         else (key, kept) # removeFromCells ident rest)"

definition remove_idx :: "SpatialIndex \<Rightarrow> string option \<Rightarrow> bool \<times> SpatialIndex" where
  "remove_idx s ident =
     (if \<not> truthy_str ident then (False, s)
      else
        (let hits = length (filter (\<lambda>it. item_id it = ident) (allItems s));
             removed = (0 < hits)
         in if removed
            then (True, clearQueryCache
                          (s\<lparr> grid := removeFromCells ident (grid s),
                              itemCount := itemCount s - hits \<rparr>))
            else (False, s)))"

definition insert_idx :: "SpatialIndex \<Rightarrow> item option \<Rightarrow> bool \<times> SpatialIndex" where
  "insert_idx s arg =
     (case arg of
        None \<Rightarrow> (False, s)
      | Some it \<Rightarrow>
          (case position it of
             Some (Some x, Some y) \<Rightarrow>
               (let s1 = (if truthy_str (item_id it) \<and> findItemById s (item_id it) \<noteq> None
                          then snd (remove_idx s (item_id it)) else s);
                    key = getGridKey s1 (Some x) (Some y);
                    cell = (case map_of (grid s1) key of None \<Rightarrow> [] | Some items \<Rightarrow> items)
                in (True, clearQueryCache
                            (s1\<lparr> grid := AList.update key (cell @ [it]) (grid s1),
                                 itemCount := itemCount s1 + 1 \<rparr>)))
           | _ \<Rightarrow> (False, s)))"

definition js_round :: "real \<Rightarrow> int" where
  \<comment> \<open>\<^verbatim>\<open>Math.round\<close>: nearest integer, ties towards plus infinity\<close>
  "js_round v = \<lfloor>v + 1/2\<rfloor>"

definition cacheKey :: "real \<Rightarrow> real \<Rightarrow> real \<Rightarrow> cache_key" where
  "cacheKey x y radius = (js_round x, js_round y, js_round radius)"

definition withinRadius :: "real \<Rightarrow> real \<Rightarrow> real \<Rightarrow> item \<Rightarrow> bool" where
  \<comment> \<open>the test of the inner loop of \<open>performQuery\<close>; a comparison with NaN is false\<close>
  "withinRadius x y radius it =
     (case position it of
        Some (Some ix, Some iy) \<Rightarrow>
          (let dx = ix - x; dy = iy - y; dist = sqrt (dx * dx + dy * dy) in dist \<le> radius)
      | _ \<Rightarrow> False)"

definition performQuery :: "SpatialIndex \<Rightarrow> real \<Rightarrow> real \<Rightarrow> real \<Rightarrow> item list" where
  "performQuery s x y radius =
     (let gridRadius = \<lceil>radius / cellSize s\<rceil>;
          centerX = \<lfloor>x / cellSize s\<rfloor>;
          centerY = \<lfloor>y / cellSize s\<rfloor>;
          minX = max 0 (centerX - gridRadius);
          maxX = min (gridWidth s - 1) (centerX + gridRadius);
          minY = max 0 (centerY - gridRadius);
          maxY = min (gridHeight s - 1) (centerY + gridRadius)
      in concat (map (\<lambda>gridX.
           concat (map (\<lambda>gridY.
             (case map_of (grid s) (gridX, gridY) of
                None \<Rightarrow> []
              | Some items \<Rightarrow> filter (withinRadius x y radius) items)) [minY..maxY]))
           [minX..maxX]))"

definition updateCacheAccess :: "SpatialIndex \<Rightarrow> cache_key \<Rightarrow> SpatialIndex" where
  "updateCacheAccess s key = s\<lparr> cacheAccessOrder := remove1 key (cacheAccessOrder s) @ [key] \<rparr>"

definition addToCache :: "SpatialIndex \<Rightarrow> cache_key \<Rightarrow> item list \<Rightarrow> SpatialIndex" where
  "addToCache s key results =
     (let s1 = (if maxCacheSize \<le> length (queryCache s)
                then (case cacheAccessOrder s of
                        [] \<Rightarrow> s
                      | oldestKey # rest \<Rightarrow>
                          s\<lparr> queryCache := AList.delete oldestKey (queryCache s),
                             cacheAccessOrder := rest \<rparr>)
                else s)
      in s1\<lparr> queryCache := AList.update key results (queryCache s1),
              cacheAccessOrder := cacheAccessOrder s1 @ [key] \<rparr>)"

definition query :: "SpatialIndex \<Rightarrow> (jsnum \<times> jsnum) option \<Rightarrow> jsnum \<Rightarrow> item list \<times> SpatialIndex" where
  "query s pos radius =
     (case (pos, radius) of
        (Some (Some x, Some y), Some r) \<Rightarrow>
          if r < 0 then ([], s)
          else
            (let key = cacheKey x y r
             in case map_of (queryCache s) key of
                  Some cached \<Rightarrow> (cached, updateCacheAccess s key)
                | None \<Rightarrow>
                    (let results = performQuery s x y r
                     in (results, addToCache s key results)))
      | _ \<Rightarrow> ([], s))"

definition update_idx :: "SpatialIndex \<Rightarrow> item option \<Rightarrow> bool \<times> SpatialIndex" where
  "update_idx s arg =
     (case arg of
        None \<Rightarrow> (False, s)
      | Some it \<Rightarrow>
          if \<not> truthy_str (item_id it) then (False, s)
          else insert_idx (snd (remove_idx s (item_id it))) (Some it))"

definition clear :: "SpatialIndex \<Rightarrow> SpatialIndex" where
  "clear s = clearQueryCache (s\<lparr> grid := [], itemCount := 0 \<rparr>)"

definition sliceLast :: "nat \<Rightarrow> 'a list \<Rightarrow> 'a list" where
  \<comment> \<open>\<^verbatim>\<open>xs.slice(-k)\<close>; \<^verbatim>\<open>slice(-0)\<close> is the whole array\<close>
  "sliceLast k xs = (if k = 0 then xs else drop (length xs - k) xs)"

definition cleanup :: "SpatialIndex \<Rightarrow> SpatialIndex" where
  "cleanup s =
     (let s1 = s\<lparr> grid := filter (\<lambda>(key, items). items \<noteq> []) (grid s) \<rparr>
      in if maxCacheSize < 2 * length (queryCache s1)
         then (let keepCount = maxCacheSize div 2;
                   keysToKeep = sliceLast keepCount (cacheAccessOrder s1)
               in s1\<lparr> queryCache := [], cacheAccessOrder := keysToKeep \<rparr>)
         else s1)"

definition nearestStep :: "real \<Rightarrow> real \<Rightarrow> item \<Rightarrow> real \<times> item option \<Rightarrow> real \<times> item option" where
  \<comment> \<open>one iteration of the candidate loop of \<open>findNearest\<close>\<close>
  "nearestStep x y it acc =
     (case position it of
        Some (Some ix, Some iy) \<Rightarrow>
          (let dx = ix - x; dy = iy - y; distance = sqrt (dx * dx + dy * dy)
           in if distance < fst acc then (distance, Some it) else acc)
      | Some _ \<Rightarrow> acc
      | None \<Rightarrow> acc)"

fun findNearestLoop ::
  "real \<Rightarrow> real \<Rightarrow> real list \<Rightarrow> real \<Rightarrow> SpatialIndex \<Rightarrow> item option \<times> SpatialIndex" where
  "findNearestLoop x y [] minDistance s = (None, s)"
| "findNearestLoop x y (radius # radii) minDistance s =
     (if minDistance < radius then (None, s)
      else
        (let (candidates, s') = query s (Some (Some x, Some y)) (Some radius);
             (minDistance', nearest) = fold (nearestStep x y) candidates (minDistance, None)
         in if nearest \<noteq> None then (nearest, s')
            else findNearestLoop x y radii minDistance' s'))"

text \<open>
  \<open>maxDistance = None\<close> is the default argument \<^verbatim>\<open>Infinity\<close>. The loop keeps
  \<^verbatim>\<open>nearest\<close> null until it leaves, so the recursion carries only \<^verbatim>\<open>minDistance\<close>.
\<close>

definition findNearest ::
  "SpatialIndex \<Rightarrow> (jsnum \<times> jsnum) option \<Rightarrow> real option \<Rightarrow> item option \<times> SpatialIndex" where
  "findNearest s pos maxDistance =
     (case pos of
        Some (Some x, Some y) \<Rightarrow>
          (let minDistance = (case maxDistance of None \<Rightarrow> 1000 | Some m \<Rightarrow> min m 1000);
               searchRadii = [50, 100, 200, 500, minDistance]
           in findNearestLoop x y searchRadii minDistance s)
      | _ \<Rightarrow> (None, s))"

text \<open>
  The states a caller can build: the constructor followed by any calls of the mutating
  methods (\<open>query\<close> and \<open>findNearest\<close> mutate the cache).
\<close>

inductive reachable :: "SpatialIndex \<Rightarrow> bool" where
  r_new: "reachable (newSpatialIndex w h c)"
| r_insert: "reachable s \<Longrightarrow> reachable (snd (insert_idx s arg))"
| r_remove: "reachable s \<Longrightarrow> reachable (snd (remove_idx s ident))"
| r_update: "reachable s \<Longrightarrow> reachable (snd (update_idx s arg))"
| r_query: "reachable s \<Longrightarrow> reachable (snd (query s pos radius))"
| r_nearest: "reachable s \<Longrightarrow> reachable (snd (findNearest s pos maxDistance))"
| r_clear: "reachable s \<Longrightarrow> reachable (clear s)"
| r_cleanup: "reachable s \<Longrightarrow> reachable (cleanup s)"

definition validPosition :: "item \<Rightarrow> bool" where
  \<comment> \<open>the two position tests at the head of \<open>insert\<close> pass\<close>
  "validPosition it = (case position it of Some (Some x, Some y) \<Rightarrow> True | _ \<Rightarrow> False)"

definition itemKey :: "SpatialIndex \<Rightarrow> item \<Rightarrow> cell_key" where
  "itemKey s it = (case position it of Some (x, y) \<Rightarrow> getGridKey s x y | None \<Rightarrow> (0, 0))"


text \<open>
  The representation invariant of the index: positive cell size, a grid of at least one
  column and one row, one map entry per key, every stored item valid and filed under the key
  of its own position, the counter equal to the number of stored items, and cached result
  lists drawn from the stored items.
\<close>

definition wellFormed :: "SpatialIndex \<Rightarrow> bool" where
  "wellFormed s =
     (0 < cellSize s \<and> 1 \<le> gridWidth s \<and> 1 \<le> gridHeight s \<and>
      distinct (map fst (grid s)) \<and>
      (\<forall>(key, items) \<in> set (grid s). \<forall>it \<in> set items. validPosition it \<and> itemKey s it = key) \<and>
      itemCount s = length (allItems s) \<and>
      (\<forall>(key, results) \<in> set (queryCache s). set results \<subseteq> set (allItems s)))"

subsection \<open>Concrete indexes and items\<close>

definition index800 :: SpatialIndex where
  "index800 = newSpatialIndex (Some 800) (Some 600) (Some 50)"

definition itemA :: item where
  "itemA = \<lparr> item_id = Some ''a'', position = Some (Some 10, Some 10) \<rparr>"



definition itemNoId :: item where
  "itemNoId = \<lparr> item_id = None, position = Some (Some 10, Some 10) \<rparr>"

definition itemA_moved_nowhere :: item where
  \<comment> \<open>the id of \<open>itemA\<close> with the position missing\<close>
  "itemA_moved_nowhere = \<lparr> item_id = Some ''a'', position = None \<rparr>"

definition fieldSame :: SemanticField where
  \<comment> \<open>a field whose graph records similarity 1 between a word and itself\<close>
  "fieldSame = newSemanticField \<lparr> semanticGraph := [(''a'', [(''a'', 1)])] \<rparr>"

definition claimedForce :: "real \<Rightarrow> real \<Rightarrow> real \<Rightarrow> force" where
  \<comment> \<open>the specification's formula: both operands of the ratio floored at 0.1\<close>
  "claimedForce spatialDistance semanticDistance collocation =
     (let ratio = max (1/10) spatialDistance / max (1/10) semanticDistance
      in \<lparr> attraction = max 0 (min 1 (collocation - ratio * (3/10))),
           repulsion = max 0 (min 1 ((ratio - 1) * (1/2))),
           lateral = max (-1) (min 1 (sin (ratio * pi) * (2/10))) \<rparr>)"

subsection \<open>A run of queries that overfills the cache\<close>

definition queryAtOrigin :: "nat \<Rightarrow> SpatialIndex \<Rightarrow> SpatialIndex" where
  \<comment> \<open>\<^verbatim>\<open>index.query({x: 0, y: 0}, n)\<close>, result dropped\<close>
  "queryAtOrigin n s = snd (query s (Some (Some 0, Some 0)) (Some (real n)))"

definition cacheOverflowRun :: SpatialIndex where
  \<comment> \<open>51 queries with distinct radii, \<open>cleanup()\<close>, then 101 queries with fresh radii\<close>
  "cacheOverflowRun =
     fold queryAtOrigin [51..<152] (cleanup (fold queryAtOrigin [0..<51] index800))"

section \<open>SemanticField: analysis of a text\<close>

text \<open>
  Texts are strings of 8-bit characters, so the model covers texts in Latin-1; of the
  separators of the regular expression \<^verbatim>\<open>/[\s...]+/\<close> those below 256 are kept. The
  similarity of two words is computed by the source from sines and cosines of a string hash
  in floating point; it enters the model as the parameter \<open>sim\<close>, about which nothing is
  assumed.
\<close>

definition isSeparator :: "char \<Rightarrow> bool" where
  "isSeparator c =
     (c \<in> set [CHR 0x09, CHR 0x0A, CHR 0x0B, CHR 0x0C, CHR 0x0D, CHR 0x20, CHR 0xA0])"

function splitPieces :: "string \<Rightarrow> string \<Rightarrow> string list" where
  "splitPieces cur [] = [cur]"
| "splitPieces cur (c # cs) =
     (if isSeparator c then cur # splitPieces [] (dropWhile isSeparator cs)
      else splitPieces (cur @ [c]) cs)"
  by pat_completeness auto
termination
  by (relation "measure (\<lambda>(cur, cs). length cs)")
     (auto simp: length_dropWhile_le less_Suc_eq_le)

definition tokenize :: "string \<Rightarrow> string list" where
  \<comment> \<open>\<^verbatim>\<open>text.split(/[\s...]+/).filter(word => word && word.length > 0)\<close>\<close>
  "tokenize txt = (if txt = [] then [] else filter (\<lambda>word. word \<noteq> []) (splitPieces [] txt))"

definition keepCount :: "nat \<Rightarrow> nat" where
  \<comment> \<open>\<^verbatim>\<open>Math.floor(max * 0.8)\<close>\<close>
  "keepCount m = (m * 8) div 10"

definition cleanupSemanticGraph :: "SemanticField \<Rightarrow> SemanticField" where
  "cleanupSemanticGraph sf =
     sf\<lparr> semanticGraph :=
           take (keepCount maxSemanticGraphSize)
             (sort_key (\<lambda>entry. - int (length (snd entry))) (semanticGraph sf)) \<rparr>"

definition cleanupCollocationMatrix :: "SemanticField \<Rightarrow> SemanticField" where
  "cleanupCollocationMatrix sf =
     sf\<lparr> collocationMatrix :=
           take (keepCount maxCollocationSize)
             (sort_key (\<lambda>entry. - snd entry) (collocationMatrix sf)) \<rparr>"

definition addSemanticConnection :: "SemanticField \<Rightarrow> string \<Rightarrow> string \<Rightarrow> real \<Rightarrow> SemanticField" where
  "addSemanticConnection sf word1 word2 strength =
     (if word1 = [] \<or> word2 = [] then sf
      else
        (let sf1 = (if maxSemanticGraphSize \<le> length (semanticGraph sf)
                    then cleanupSemanticGraph sf else sf);
             connections = (case map_of (semanticGraph sf1) word1 of
                              None \<Rightarrow> [] | Some c \<Rightarrow> c)
         in sf1\<lparr> semanticGraph :=
                    AList.update word1
                      (AList.update word2 (max 0 (min 1 strength)) connections)
                      (semanticGraph sf1) \<rparr>))"

definition collocationStep :: "string \<times> string \<Rightarrow> (string \<times> real) list \<Rightarrow> (string \<times> real) list" where
  \<comment> \<open>the body of the bigram loop, for \<^verbatim>\<open>words[i]\<close> and \<^verbatim>\<open>words[i + 1]\<close>\<close>
  "collocationStep pair matrix =
     (case pair of (w1, w2) \<Rightarrow>
        if w1 = [] \<or> w2 = [] then matrix
        else
          (let bigram = bigramKey w1 w2;
               currentStrength = (case map_of matrix bigram of
                                    None \<Rightarrow> 0 | Some v \<Rightarrow> num_or v 0)
           in AList.update bigram (min 1 (currentStrength + 1/10)) matrix))"

definition detectCollocationPatterns :: "SemanticField \<Rightarrow> string list \<Rightarrow> SemanticField" where
  "detectCollocationPatterns sf words =
     (if length words < 2 then sf
      else
        (let sf1 = (if maxCollocationSize \<le> length (collocationMatrix sf)
                    then cleanupCollocationMatrix sf else sf)
         in sf1\<lparr> collocationMatrix :=
                    fold collocationStep (zip words (tl words)) (collocationMatrix sf1) \<rparr>))"

definition cleanupField :: "SemanticField \<Rightarrow> SemanticField" where
  \<comment> \<open>the method \<^verbatim>\<open>cleanup()\<close> of SemanticField\<close>
  "cleanupField sf =
     (let sf1 = (if maxHistorySize < length (readingHistory sf)
                 then sf\<lparr> readingHistory :=
                          drop (length (readingHistory sf) - maxHistorySize) (readingHistory sf) \<rparr>
                 else sf);
          sf2 = (if maxSemanticGraphSize < length (semanticGraph sf1)
                 then cleanupSemanticGraph sf1 else sf1)
      in if maxCollocationSize < length (collocationMatrix sf2)
         then cleanupCollocationMatrix sf2 else sf2)"

definition performCleanupIfNeeded :: "SemanticField \<Rightarrow> SemanticField" where
  "performCleanupIfNeeded sf =
     (let sf1 = sf\<lparr> cleanupCounter := cleanupCounter sf + 1 \<rparr>
      in if 100 \<le> cleanupCounter sf1 then (cleanupField sf1)\<lparr> cleanupCounter := 0 \<rparr> else sf1)"

definition similarityStep ::
  "(string \<Rightarrow> string \<Rightarrow> real) \<Rightarrow> string list \<Rightarrow> nat \<times> nat \<Rightarrow> SemanticField \<Rightarrow> SemanticField" where
  \<comment> \<open>the body of the double loop over \<^verbatim>\<open>i < j\<close>\<close>
  "similarityStep sim words ij sf =
     (case ij of (i, j) \<Rightarrow>
        (let similarity = sim (words ! i) (words ! j)
         in if 3/10 < similarity then addSemanticConnection sf (words ! i) (words ! j) similarity
            else sf))"

definition indexPairs :: "nat \<Rightarrow> (nat \<times> nat) list" where
  \<comment> \<open>\<^verbatim>\<open>for i in 0..n-1, for j in i+1..n-1\<close>, in loop order\<close>
  "indexPairs n = concat (map (\<lambda>i. map (\<lambda>j. (i, j)) [Suc i..<n]) [0..<n])"

definition analyzeSemanticStructure ::
  "(string \<Rightarrow> string \<Rightarrow> real) \<Rightarrow> SemanticField \<Rightarrow> string \<Rightarrow> SemanticField" where
  "analyzeSemanticStructure sim sf txt =
     (if txt = [] then sf
      else
        (let words = tokenize txt
         in if words = [] then sf
            else
              (let sf1 = fold (similarityStep sim words) (indexPairs (length words)) sf;
                   sf2 = detectCollocationPatterns sf1 words
               in performCleanupIfNeeded sf2)))"

definition addToReadingHistory :: "SemanticField \<Rightarrow> nat \<Rightarrow> SemanticField" where
  \<comment> \<open>an entry is represented by its timestamp\<close>
  "addToReadingHistory sf entry =
     (let h = readingHistory sf @ [entry]
      in sf\<lparr> readingHistory :=
               (if maxHistorySize < length h then drop (length h - maxHistorySize) h else h) \<rparr>)"

definition burstWords :: "string list" where
  \<comment> \<open>2002 distinct words: a, aa, aaa, ...\<close>
  "burstWords = map (\<lambda>i. replicate (Suc i) CHR ''a'') [0..<2002]"

definition burstText :: string where
  \<comment> \<open>the words, each followed by a space\<close>
  "burstText = concat (map (\<lambda>w. w @ '' '') burstWords)"

definition getSemanticComplexity :: "SemanticField \<Rightarrow> string \<Rightarrow> real" where
  "getSemanticComplexity sf word =
     (case map_of (semanticGraph sf) word of
        None \<Rightarrow> 1
      | Some connections \<Rightarrow> min 10 (real (length connections)))"

definition getContextualLoad :: "SemanticField \<Rightarrow> real" where
  "getContextualLoad sf = min 1 (real (length (readingHistory sf)) * (1/100))"

definition calculateCognitiveLoad :: "SemanticField \<Rightarrow> string option \<Rightarrow> real" where
  \<comment> \<open>the argument is the \<^verbatim>\<open>char\<close> of the node\<close>
  "calculateCognitiveLoad sf c =
     (if \<not> truthy_str c then 1/2
      else
        (let wordComplexity = real (length (the c));
             semanticComplexity = getSemanticComplexity sf (the c);
             contextualLoad = getContextualLoad sf
         in max 0 (min 1 ((wordComplexity + semanticComplexity + contextualLoad) / 3))))"

section \<open>OrganicLayout\<close>

text \<open>
  A node keeps the fields the growth rules read: its id (the number \<open>n\<close> of the string
  \<^verbatim>\<open>`node_${n}`\<close>), character, position, velocity, energy, generation, text index and
  parent id. The node graph, the growth queue and the semantic field are the state of the
  engine; trajectory, collocation fields, emergent patterns, self-reflection with its
  retuning of the parameters, and the rebuilding of the spatial index are left out: they
  do not write to the node list. What the source computes from
  \<^verbatim>\<open>Math.random()\<close>, from trigonometry in floating point or from the spatial index enters
  one growth step as its \<open>growthInputs\<close>.
\<close>

record growthParams =
  initialEnergy :: real
  energyDecay :: real
  characterSpacing :: real

definition defaultParams :: growthParams where
  "defaultParams = \<lparr> initialEnergy = 100, energyDecay = 3/10, characterSpacing = 18 \<rparr>"

record node =
  node_id :: nat
  nodeChar :: "string option"
  nodePosition :: "real \<times> real"
  velocity :: "real \<times> real"
  energy :: real
  generation :: nat
  textIndex :: nat
  parent :: "nat option"

record OrganicLayout =
  sourceText :: string
  nodes :: "node list"
  connections :: "(nat \<times> nat) list"
  growthQueue :: "node list"
  tick :: nat
  isGrowing :: bool
  params :: growthParams
  semanticField :: SemanticField

definition maxNodes :: nat where "maxNodes = 1000"
definition maxConnections :: nat where "maxConnections = 2000"

record growthInputs =
  nearbyNodes :: "node list"
  curvedDir :: "real \<times> real"
  branchDraw :: bool
  branchScan :: "((real \<times> real) \<times> real) option"
  avoidanceFound :: bool

text \<open>
  \<open>nearbyNodes\<close> is the filtered result of \<^verbatim>\<open>spatialIndex.query(node.position, 50)\<close>,
  \<open>curvedDir\<close> the unit vector returned by \<open>applyCurvature\<close>, \<open>branchDraw\<close> the outcome of
  \<^verbatim>\<open>Math.random() < branchProbability\<close>, \<open>branchScan\<close> the best direction and its interest
  found by the angle scan of \<open>createSemanticBranch\<close> (\<open>None\<close> when no direction was better
  than 0), and \<open>avoidanceFound\<close> the test \<^verbatim>\<open>bestAngle !== null && maxFreedom > 0.3\<close>.
\<close>

definition getDistance :: "real \<times> real \<Rightarrow> real \<times> real \<Rightarrow> real" where
  "getDistance pos1 pos2 =
     (let dx = fst pos1 - fst pos2; dy = snd pos1 - snd pos2 in sqrt (dx * dx + dy * dy))"

definition checkIntersection :: "node \<Rightarrow> node list \<Rightarrow> bool" where
  "checkIntersection nd nearby =
     list_ex (\<lambda>other. node_id other \<noteq> node_id nd \<and>
                getDistance (nodePosition nd) (nodePosition other) < 15) nearby"

definition checkSemanticIntersection :: "SemanticField \<Rightarrow> node \<Rightarrow> node list \<Rightarrow> bool" where
  "checkSemanticIntersection sf nd nearby =
     (checkIntersection nd nearby \<or>
      (truthy_str (nodeChar nd) \<and>
       list_ex (\<lambda>other. truthy_str (nodeChar other) \<and>
                  getSemanticDistance sf (nodeChar nd) (nodeChar other) < 3/10 \<and>
                  getDistance (nodePosition nd) (nodePosition other) < 25) nearby))"

definition collocationBonus :: "SemanticField \<Rightarrow> node \<Rightarrow> node list \<Rightarrow> real" where
  \<comment> \<open>the accumulation loop of \<open>calculateEnergyDecay\<close>\<close>
  "collocationBonus sf nd nearby =
     (if truthy_str (nodeChar nd)
      then fold (\<lambda>other acc.
                   if truthy_str (nodeChar other)
                   then acc + max 0 (getCollocationStrength sf (nodeChar nd) (nodeChar other) * (5/100))
                   else acc) nearby 0
      else 0)"

definition calculateEnergyDecay :: "growthParams \<Rightarrow> SemanticField \<Rightarrow> node \<Rightarrow> node list \<Rightarrow> real" where
  "calculateEnergyDecay prm sf nd nearby =
     (let baseDecay = energyDecay prm;
          cognitiveLoad = calculateCognitiveLoad sf (nodeChar nd);
          loadPenalty = max 0 (cognitiveLoad * (1/10))
      in max (1/10) (min 1 (baseDecay + loadPenalty - collocationBonus sf nd nearby)))"

definition textChar :: "string \<Rightarrow> nat \<Rightarrow> string option" where
  \<comment> \<open>\<^verbatim>\<open>this.text[i]\<close>: undefined out of range\<close>
  "textChar txt i = (if i < length txt then Some [txt ! i] else None)"

definition nextTextIndex :: "OrganicLayout \<Rightarrow> node \<Rightarrow> nat" where
  \<comment> \<open>\<^verbatim>\<open>Math.min(node.textIndex + 1, this.text.length - 1)\<close>; the callers run on a non-empty text\<close>
  "nextTextIndex lay nd = min (textIndex nd + 1) (length (sourceText lay) - 1)"

definition advance :: "OrganicLayout \<Rightarrow> node \<Rightarrow> real \<times> real \<Rightarrow> real \<times> real" where
  "advance lay nd dir =
     (fst (nodePosition nd) + fst dir * characterSpacing (params lay),
      snd (nodePosition nd) + snd dir * characterSpacing (params lay))"

definition growSuccessor :: "OrganicLayout \<Rightarrow> node \<Rightarrow> node list \<Rightarrow> real \<times> real \<Rightarrow> node" where
  \<comment> \<open>the object \<^verbatim>\<open>newNode\<close> of \<open>grow\<close>\<close>
  "growSuccessor lay nd nearby dir =
     \<lparr> node_id = length (nodes lay),
       nodeChar = textChar (sourceText lay) (nextTextIndex lay nd),
       nodePosition = advance lay nd dir,
       velocity = dir,
       energy = max 0 (energy nd - calculateEnergyDecay (params lay) (semanticField lay) nd nearby),
       generation = generation nd + 1,
       textIndex = nextTextIndex lay nd,
       parent = Some (node_id nd) \<rparr>"

definition semanticBranchNode :: "OrganicLayout \<Rightarrow> node \<Rightarrow> real \<times> real \<Rightarrow> node" where
  \<comment> \<open>the object \<^verbatim>\<open>branchNode\<close> of \<open>createSemanticBranch\<close>\<close>
  "semanticBranchNode lay parentNode bestDirection =
     \<lparr> node_id = length (nodes lay),
       nodeChar = textChar (sourceText lay) (nextTextIndex lay parentNode),
       nodePosition = advance lay parentNode bestDirection,
       velocity = bestDirection,
       energy = max 0 (energy parentNode * (8/10)),
       generation = generation parentNode + 1,
       textIndex = nextTextIndex lay parentNode,
       parent = Some (node_id parentNode) \<rparr>"

definition plainBranchNode :: "OrganicLayout \<Rightarrow> node \<Rightarrow> real \<times> real \<Rightarrow> node" where
  \<comment> \<open>the object \<^verbatim>\<open>branchNode\<close> of \<open>createBranch\<close>; the direction is
      \<^verbatim>\<open>(Math.cos(branchAngle), Math.sin(branchAngle))\<close>\<close>
  "plainBranchNode lay parentNode dir =
     \<lparr> node_id = length (nodes lay),
       nodeChar = textChar (sourceText lay) (nextTextIndex lay parentNode),
       nodePosition = advance lay parentNode dir,
       velocity = dir,
       energy = max 0 (energy parentNode * (7/10)),
       generation = generation parentNode + 1,
       textIndex = nextTextIndex lay parentNode,
       parent = Some (node_id parentNode) \<rparr>"

definition addConnection :: "OrganicLayout \<Rightarrow> nat \<Rightarrow> nat \<Rightarrow> OrganicLayout" where
  \<comment> \<open>ids \<^verbatim>\<open>`node_${n}`\<close> are never falsy\<close>
  "addConnection lay from to =
     (if (from, to) \<in> set (connections lay) then lay
      else lay\<lparr> connections := connections lay @ [(from, to)] \<rparr>)"

definition createSemanticBranch ::
  "OrganicLayout \<Rightarrow> node \<Rightarrow> node list \<Rightarrow> ((real \<times> real) \<times> real) option \<Rightarrow> node option \<times> OrganicLayout" where
  "createSemanticBranch lay parentNode nearby scan =
     (case scan of
        None \<Rightarrow> (None, lay)
      | Some (bestDirection, maxInterest) \<Rightarrow>
          if maxInterest \<le> 0 then (None, lay)
          else
            (let branchNode = semanticBranchNode lay parentNode bestDirection
             in if checkSemanticIntersection (semanticField lay) branchNode nearby then (None, lay)
                else (Some branchNode,
                      addConnection (lay\<lparr> nodes := nodes lay @ [branchNode] \<rparr>)
                        (node_id parentNode) (node_id branchNode))))"

definition createSemanticAvoidanceBranch ::
  "OrganicLayout \<Rightarrow> node \<Rightarrow> node list \<Rightarrow> growthInputs \<Rightarrow> node option \<times> OrganicLayout" where
  "createSemanticAvoidanceBranch lay parentNode nearby inp =
     (if truthy_str (nodeChar parentNode) \<and> avoidanceFound inp
      then createSemanticBranch lay parentNode nearby (branchScan inp)
      else (None, lay))"

definition enqueue :: "node list \<Rightarrow> node option \<Rightarrow> node list" where
  \<comment> \<open>\<^verbatim>\<open>if (n) newQueue.push(n)\<close>\<close>
  "enqueue queue n = (case n of None \<Rightarrow> queue | Some m \<Rightarrow> queue @ [m])"

definition growNode ::
  "growthInputs \<Rightarrow> node \<Rightarrow> OrganicLayout \<times> node list \<Rightarrow> OrganicLayout \<times> node list" where
  \<comment> \<open>one pass of the loop over the growth queue\<close>
  "growNode inp nd st =
     (case st of (lay, newQueue) \<Rightarrow>
        if energy nd \<le> 0 \<or> length (sourceText lay) - 1 \<le> textIndex nd then (lay, newQueue)
        else
          (let nearby = nearbyNodes inp;
               lay0 = (if truthy_str (nodeChar nd)
                       then lay\<lparr> semanticField := addToReadingHistory (semanticField lay) 0 \<rparr>
                       else lay);
               newNode = growSuccessor lay0 nd nearby (curvedDir inp)
           in if checkSemanticIntersection (semanticField lay0) newNode nearby
              then (case createSemanticAvoidanceBranch lay0 nd nearby inp of
                      (avoidanceNode, lay1) \<Rightarrow> (lay1, enqueue newQueue avoidanceNode))
              else
                (let lay1 = addConnection (lay0\<lparr> nodes := nodes lay0 @ [newNode] \<rparr>)
                              (node_id nd) (node_id newNode);
                     queue1 = newQueue @ [newNode]
                 in if branchDraw inp \<and> 50 < energy nd
                    then (case createSemanticBranch lay1 nd nearby (branchScan inp) of
                            (branchNode, lay2) \<Rightarrow> (lay2, enqueue queue1 branchNode))
                    else (lay1, queue1))))"

definition performMemoryCleanup :: "OrganicLayout \<Rightarrow> OrganicLayout" where
  "performMemoryCleanup lay =
     (let lay1 = (if maxNodes < length (nodes lay)
                  then (let removeCount = length (nodes lay) - keepCount maxNodes;
                            removedIds = map node_id (take removeCount (nodes lay))
                        in lay\<lparr> nodes := drop removeCount (nodes lay),
                                connections :=
                                  filter (\<lambda>(from, to). from \<notin> set removedIds \<and> to \<notin> set removedIds)
                                    (connections lay) \<rparr>)
                  else lay)
      in if maxConnections < length (connections lay1)
         then lay1\<lparr> connections :=
                     drop (length (connections lay1) - keepCount maxConnections) (connections lay1) \<rparr>
         else lay1)"

definition grow :: "(nat \<Rightarrow> growthInputs) \<Rightarrow> OrganicLayout \<Rightarrow> OrganicLayout" where
  \<comment> \<open>one tick; \<open>inputs i\<close> belongs to the i-th node of the queue\<close>
  "grow inputs lay =
     (if isGrowing lay \<and> growthQueue lay \<noteq> []
      then
        (let lay1 = (if maxNodes \<le> length (nodes lay) then performMemoryCleanup lay else lay)
         in case fold (\<lambda>(i, nd). growNode (inputs i) nd)
                   (enumerate 0 (growthQueue lay1)) (lay1, []) of
              (lay2, newQueue) \<Rightarrow> lay2\<lparr> growthQueue := newQueue, tick := tick lay2 + 1 \<rparr>)
      else lay)"

text \<open>Descent: a node and the nodes created from it by the three constructors.\<close>

inductive lineage :: "node \<Rightarrow> node \<Rightarrow> bool" where
  lineage_self: "lineage a a"
| lineage_successor: "lineage a p \<Longrightarrow> lineage a (growSuccessor lay p nearby dir)"
| lineage_semantic_branch: "lineage a p \<Longrightarrow> lineage a (semanticBranchNode lay p dir)"
| lineage_plain_branch: "lineage a p \<Longrightarrow> lineage a (plainBranchNode lay p dir)"

subsection \<open>Concrete layouts\<close>

definition numberedNode :: "nat \<Rightarrow> node" where
  \<comment> \<open>node \<^verbatim>\<open>node_i\<close>, placed 60 units from its neighbours in the list\<close>
  "numberedNode i =
     \<lparr> node_id = i, nodeChar = Some ''a'', nodePosition = (60 * real i, 300), velocity = (1, 0),
       energy = 50, generation = 1, textIndex = 0, parent = None \<rparr>"

definition crowdedLayout :: OrganicLayout where
  \<comment> \<open>1001 nodes with the ids 0 to 1000, the last one waiting in the queue\<close>
  "crowdedLayout =
     \<lparr> sourceText = replicate 2000 CHR ''a'', nodes = map numberedNode [0..<1001],
       connections = [], growthQueue = [numberedNode 1000], tick = 100, isGrowing = True,
       params = defaultParams, semanticField = newSemanticField \<rparr>"

definition straightInputs :: growthInputs where
  \<comment> \<open>no neighbour within 50 units, growth along the x axis, no branch\<close>
  "straightInputs =
     \<lparr> nearbyNodes = [], curvedDir = (1, 0), branchDraw = False, branchScan = None,
       avoidanceFound = False \<rparr>"

definition seedNode :: node where
  "seedNode =
     \<lparr> node_id = 0, nodeChar = Some ''a'', nodePosition = (520, 300), velocity = (1, 0),
       energy = 100, generation = 0, textIndex = 0, parent = None \<rparr>"

definition seedLayout :: OrganicLayout where
  \<comment> \<open>the engine after \<open>initialize\<close> and \<open>start\<close> on a text of one word: a single seed\<close>
  "seedLayout =
     \<lparr> sourceText = replicate 20 CHR ''a'', nodes = [seedNode], connections = [],
       growthQueue = [seedNode], tick = 0, isGrowing = True,
       params = defaultParams, semanticField = newSemanticField \<lparr> cleanupCounter := 1 \<rparr> \<rparr>"

definition branchingInputs :: growthInputs where
  \<comment> \<open>successor along the x axis, branch draw won, scan result: the direction of 30 degrees
      with interest 0.3\<close>
  "branchingInputs =
     \<lparr> nearbyNodes = [], curvedDir = (1, 0), branchDraw = True,
       branchScan = Some ((sqrt 3 / 2, 1/2), 3/10), avoidanceFound = False \<rparr>"

section \<open>Theorems\<close>

subsection \<open>Evaluation of the concrete inputs\<close>

lemma index800_eval:
  "index800 = \<lparr> width = 800, height = 600, cellSize = 50, gridWidth = 16, gridHeight = 12,
                grid = [], itemCount = 0, queryCache = [], cacheAccessOrder = [] \<rparr>"
  by (simp add: index800_def newSpatialIndex_def ctor_arg_def num_or_def Let_def)

lemmas idx_eval = index800_eval insert_idx_def remove_idx_def update_idx_def query_def
  performQuery_def findNearest_def truthy_str_def findItemById_def allItems_def getGridKey_def
  clearQueryCache_def cacheKey_def js_round_def withinRadius_def addToCache_def
  updateCacheAccess_def maxCacheSize_def Let_def nearestStep_def upto.simps

lemma index800_with_itemA:
  "snd (insert_idx index800 (Some itemA)) =
     \<lparr> width = 800, height = 600, cellSize = 50, gridWidth = 16, gridHeight = 12,
       grid = [((0, 0), [itemA])], itemCount = 1, queryCache = [], cacheAccessOrder = [] \<rparr>"
  by (simp add: idx_eval itemA_def)

subsection \<open>The representation invariant holds in every reachable state\<close>

lemma ctor_arg_ge1: "1 \<le> ctor_arg v d"
  by (simp add: ctor_arg_def)

lemma ceiling_ratio_ge1:
  fixes a b :: real
  assumes "1 \<le> a" "1 \<le> b"
  shows "1 \<le> \<lceil>a / b\<rceil>"
proof -
  have "0 < a / b" using assms by simp
  then have "0 < \<lceil>a / b\<rceil>" by (simp add: ceiling_less_iff less_ceiling_iff)
  then show ?thesis by simp
qed

lemma wellFormed_new: "wellFormed (newSpatialIndex w h c)"
proof -
  have c: "0 < ctor_arg c 50" "0 < ctor_arg w 800" "0 < ctor_arg h 600"
    using ctor_arg_ge1 [of c 50] ctor_arg_ge1 [of w 800] ctor_arg_ge1 [of h 600] by linarith+
  show ?thesis
    using c by (simp add: wellFormed_def newSpatialIndex_def Let_def allItems_def)
qed

lemma itemKey_grid_irrelevant [simp]:
  "itemKey (s\<lparr> grid := g \<rparr>) it = itemKey s it"
  "itemKey (s\<lparr> itemCount := n \<rparr>) it = itemKey s it"
  "itemKey (s\<lparr> queryCache := q \<rparr>) it = itemKey s it"
  "itemKey (s\<lparr> cacheAccessOrder := a \<rparr>) it = itemKey s it"
  by (simp_all add: itemKey_def getGridKey_def split: option.splits)

lemma removeFromCells_cells:
  "(key, kept) \<in> set (removeFromCells i g) \<Longrightarrow>
   \<exists>items. (key, items) \<in> set g \<and> kept = filter (\<lambda>it. item_id it \<noteq> i) items"
  by (induction i g rule: removeFromCells.induct) (auto simp: Let_def split: if_splits)

lemma removeFromCells_keys: "fst ` set (removeFromCells i g) \<subseteq> fst ` set g"
proof
  fix k assume "k \<in> fst ` set (removeFromCells i g)"
  then obtain v where "(k, v) \<in> set (removeFromCells i g)" by auto
  from removeFromCells_cells [OF this] show "k \<in> fst ` set g" by force
qed

lemma removeFromCells_distinct:
  "distinct (map fst g) \<Longrightarrow> distinct (map fst (removeFromCells i g))"
proof (induction i g rule: removeFromCells.induct)
  case (1 i) then show ?case by simp
next
  case (2 i key items rest)
  have "key \<notin> fst ` set (removeFromCells i rest)"
    using 2(3) removeFromCells_keys [of i rest] by auto
  then show ?case using 2 by (auto simp: Let_def)
qed

lemma removeFromCells_items:
  "concat (map snd (removeFromCells i g)) = filter (\<lambda>it. item_id it \<noteq> i) (concat (map snd g))"
  by (induction i g rule: removeFromCells.induct) (auto simp: Let_def)

lemma length_filter_split:
  "length (filter (\<lambda>it. item_id it \<noteq> i) xs) = length xs - length (filter (\<lambda>it. item_id it = i) xs)"
  using sum_length_filter_compl [of "\<lambda>it. item_id it = i" xs] by simp

lemma wellFormed_remove:
  assumes "wellFormed s"
  shows "wellFormed (snd (remove_idx s i))"
proof (cases "truthy_str i \<and> 0 < length (filter (\<lambda>it. item_id it = i) (allItems s))")
  case False
  then have "snd (remove_idx s i) = s" by (auto simp: remove_idx_def Let_def)
  then show ?thesis using assms by simp
next
  case True
  then have eq: "snd (remove_idx s i) =
      clearQueryCache (s\<lparr> grid := removeFromCells i (grid s),
         itemCount := itemCount s - length (filter (\<lambda>it. item_id it = i) (allItems s)) \<rparr>)"
    by (auto simp: remove_idx_def Let_def)
  have cells: "\<forall>(key, items) \<in> set (removeFromCells i (grid s)).
                 \<forall>it \<in> set items. validPosition it \<and> itemKey s it = key"
  proof (clarify)
    fix key kept it
    assume a: "(key, kept) \<in> set (removeFromCells i (grid s))" and b: "it \<in> set kept"
    from removeFromCells_cells [OF a] obtain items
      where "(key, items) \<in> set (grid s)" "kept = filter (\<lambda>it. item_id it \<noteq> i) items" by blast
    then show "validPosition it \<and> itemKey s it = key"
      using assms b by (auto simp: wellFormed_def)
  qed
  show ?thesis
    unfolding eq using assms cells
    by (simp add: wellFormed_def clearQueryCache_def allItems_def removeFromCells_distinct
        removeFromCells_items length_filter_split)
qed


lemma getGridKey_irrelevant [simp]:
  "getGridKey (s\<lparr> grid := g \<rparr>) = getGridKey s"
  "getGridKey (s\<lparr> itemCount := n \<rparr>) = getGridKey s"
  "getGridKey (s\<lparr> queryCache := q \<rparr>) = getGridKey s"
  "getGridKey (s\<lparr> cacheAccessOrder := a \<rparr>) = getGridKey s"
  by (simp_all add: getGridKey_def fun_eq_iff split: option.splits)

lemma update_cell_length:
  "length (concat (map snd (AList.update k ((case map_of al k of None \<Rightarrow> [] | Some c \<Rightarrow> c) @ [x]) al)))
   = Suc (length (concat (map snd al)))"
  by (induction al) auto

lemma update_cell_items:
  "set (concat (map snd (AList.update k ((case map_of al k of None \<Rightarrow> [] | Some c \<Rightarrow> c) @ [x]) al)))
   = insert x (set (concat (map snd al)))"
  by (induction al) auto

lemma update_elems: "set (AList.update k v al) \<subseteq> insert (k, v) (set al)"
  by (induction al) auto

lemma wellFormed_insert:
  assumes "wellFormed s"
  shows "wellFormed (snd (insert_idx s arg))"
proof (cases arg)
  case None then show ?thesis using assms by (simp add: insert_idx_def)
next
  case (Some it)
  show ?thesis
  proof (cases "validPosition it")
    case False
    then have "snd (insert_idx s arg) = s"
      by (auto simp: insert_idx_def Some validPosition_def split: option.splits prod.splits)
    then show ?thesis using assms by simp
  next
    case True
    then obtain x y where pos: "position it = Some (Some x, Some y)"
      by (auto simp: validPosition_def split: option.splits prod.splits)
    define s1 where "s1 = (if truthy_str (item_id it) \<and> findItemById s (item_id it) \<noteq> None
                          then snd (remove_idx s (item_id it)) else s)"
    define key where "key = getGridKey s1 (Some x) (Some y)"
    define cell where "cell = (case map_of (grid s1) key of None \<Rightarrow> [] | Some items \<Rightarrow> items)"
    have wf1: "wellFormed s1" using assms wellFormed_remove by (simp add: s1_def)
    have eq: "snd (insert_idx s arg) =
        clearQueryCache (s1\<lparr> grid := AList.update key (cell @ [it]) (grid s1),
                              itemCount := itemCount s1 + 1 \<rparr>)"
      by (simp add: insert_idx_def Some pos Let_def s1_def key_def cell_def)
    have keyit: "itemKey s1 it = key" by (simp add: itemKey_def pos key_def)
    have cells: "\<forall>(k, items) \<in> set (AList.update key (cell @ [it]) (grid s1)).
                   \<forall>j \<in> set items. validPosition j \<and> itemKey s1 j = k"
    proof (clarify)
      fix k items j
      assume a: "(k, items) \<in> set (AList.update key (cell @ [it]) (grid s1))" and b: "j \<in> set items"
      from a update_elems have "(k, items) = (key, cell @ [it]) \<or> (k, items) \<in> set (grid s1)" by fastforce
      then show "validPosition j \<and> itemKey s1 j = k"
      proof
        assume "(k, items) = (key, cell @ [it])"
        then have k: "k = key" and "j = it \<or> j \<in> set cell" using b by auto
        then show ?thesis
        proof (cases "j = it")
          case True then show ?thesis using k keyit \<open>validPosition it\<close> by simp
        next
          case False
          then have "j \<in> set cell" using \<open>j = it \<or> j \<in> set cell\<close> by simp
          then obtain c where "map_of (grid s1) key = Some c" "j \<in> set c"
            by (cases "map_of (grid s1) key") (auto simp: cell_def)
          then have "(key, c) \<in> set (grid s1)" by (simp add: map_of_SomeD)
          then show ?thesis using wf1 \<open>j \<in> set c\<close> k by (auto simp: wellFormed_def)
        qed
      next
        assume "(k, items) \<in> set (grid s1)"
        then show ?thesis using wf1 b by (auto simp: wellFormed_def)
      qed
    qed
    show ?thesis
      unfolding eq using wf1 cells
      by (simp add: wellFormed_def clearQueryCache_def allItems_def distinct_update
          cell_def update_cell_length)
  qed
qed

lemma wellFormed_update:
  assumes "wellFormed s"
  shows "wellFormed (snd (update_idx s arg))"
  using assms wellFormed_remove wellFormed_insert
  by (auto simp: update_idx_def split: option.splits)

lemma performQuery_sound:
  "set (performQuery s x y r) \<subseteq> {it \<in> set (allItems s). withinRadius x y r it}"
proof
  fix it assume "it \<in> set (performQuery s x y r)"
  then show "it \<in> {it \<in> set (allItems s). withinRadius x y r it}"
    by (auto simp: performQuery_def Let_def allItems_def split: option.splits
        dest!: map_of_SomeD [OF sym]) force
qed

lemma delete_elems: "set (AList.delete k al) \<subseteq> set al"
  by (auto simp: AList.delete_eq)

lemma cache_sound_add:
  assumes "\<forall>(key, results) \<in> set (queryCache s). set results \<subseteq> set (allItems s)"
      and "set res \<subseteq> set (allItems s)"
  shows "\<forall>(key, results) \<in> set (queryCache (addToCache s k res)). set results \<subseteq> set (allItems (addToCache s k res))"
proof -
  have items: "allItems (addToCache s k res) = allItems s"
    by (simp add: addToCache_def allItems_def Let_def split: list.splits)
  have "set (queryCache (addToCache s k res)) \<subseteq> insert (k, res) (set (queryCache s))"
  proof (cases "maxCacheSize \<le> length (queryCache s)")
    case False
    then show ?thesis using update_elems [of k res "queryCache s"] by (simp add: addToCache_def)
  next
    case True
    show ?thesis
    proof (cases "cacheAccessOrder s")
      case Nil
      then show ?thesis using True update_elems [of k res "queryCache s"] by (simp add: addToCache_def)
    next
      case (Cons oldest rest)
      then show ?thesis
        using True update_elems [of k res "AList.delete oldest (queryCache s)"]
          delete_elems [of oldest "queryCache s"]
        by (auto simp: addToCache_def)
    qed
  qed
  then have sub: "set (queryCache (addToCache s k res)) \<subseteq> insert (k, res) (set (queryCache s))" .
  show ?thesis
    unfolding items
  proof (clarify)
    fix key results x
    assume a: "(key, results) \<in> set (queryCache (addToCache s k res))" and b: "x \<in> set results"
    from a sub have "(key, results) = (k, res) \<or> (key, results) \<in> set (queryCache s)" by blast
    then show "x \<in> set (allItems s)"
    proof
      assume "(key, results) = (k, res)"
      then show ?thesis using assms(2) b by auto
    next
      assume "(key, results) \<in> set (queryCache s)"
      then have "set results \<subseteq> set (allItems s)" using assms(1) by blast
      then show ?thesis using b by blast
    qed
  qed
qed

lemma wellFormed_addToCache:
  assumes "wellFormed s" "set res \<subseteq> set (allItems s)"
  shows "wellFormed (addToCache s k res)"
proof -
  have rest: "cellSize (addToCache s k res) = cellSize s" "gridWidth (addToCache s k res) = gridWidth s"
     "gridHeight (addToCache s k res) = gridHeight s" "grid (addToCache s k res) = grid s"
     "itemCount (addToCache s k res) = itemCount s" "itemKey (addToCache s k res) = itemKey s"
     "allItems (addToCache s k res) = allItems s"
    by (simp_all add: addToCache_def Let_def allItems_def fun_eq_iff split: list.splits)
  from assms cache_sound_add [of s res k]
  have "\<forall>(key, results) \<in> set (queryCache (addToCache s k res)). set results \<subseteq> set (allItems s)"
    by (simp add: wellFormed_def rest)
  then show ?thesis using assms(1) by (simp add: wellFormed_def rest)
qed

lemma wellFormed_query:
  assumes "wellFormed s"
  shows "wellFormed (snd (query s pos radius))"
proof -
  have a: "wellFormed (updateCacheAccess s k)" for k
    using assms by (simp add: wellFormed_def updateCacheAccess_def allItems_def)
  have b: "wellFormed (addToCache s k (performQuery s x y r))" for k x y r
    using wellFormed_addToCache [OF assms] performQuery_sound [of s x y r] by blast
  show ?thesis
    using assms a b by (auto simp: query_def Let_def split: option.splits prod.splits)
qed

lemma wellFormed_findNearestLoop:
  "wellFormed s \<Longrightarrow> wellFormed (snd (findNearestLoop x y radii m s))"
proof (induction radii arbitrary: m s)
  case Nil then show ?case by simp
next
  case (Cons radius radii)
  have q: "wellFormed (snd (query s (Some (Some x, Some y)) (Some radius)))"
    using Cons.prems wellFormed_query by blast
  show ?case
    using Cons.prems Cons.IH [OF q] q
    by (auto simp: Let_def split: prod.splits)
qed

lemma wellFormed_findNearest:
  assumes "wellFormed s"
  shows "wellFormed (snd (findNearest s pos maxDistance))"
proof -
  have "wellFormed (snd (findNearestLoop x y radii m s))" for x y radii m
    using assms by (rule wellFormed_findNearestLoop)
  then show ?thesis
    using assms
    by (simp add: findNearest_def Let_def split: option.splits prod.splits
        del: findNearestLoop.simps)
qed

lemma wellFormed_clear: "wellFormed s \<Longrightarrow> wellFormed (clear s)"
  by (simp add: wellFormed_def clear_def clearQueryCache_def allItems_def)

lemma nonempty_cells_items:
  "concat (map snd (filter (\<lambda>(key, items). items \<noteq> []) g)) = concat (map snd g)"
  by (induction g) auto

lemma wellFormed_cleanup:
  assumes "wellFormed s"
  shows "wellFormed (cleanup s)"
proof -
  define s1 where "s1 = s\<lparr> grid := filter (\<lambda>(key, items). items \<noteq> []) (grid s) \<rparr>"
  have items: "allItems s1 = allItems s"
    by (simp add: s1_def allItems_def nonempty_cells_items)
  have cells: "\<forall>(key, items) \<in> set (grid s1). \<forall>it \<in> set items. validPosition it \<and> itemKey s1 it = key"
    using assms by (auto simp: s1_def wellFormed_def)
  have wf1: "wellFormed s1"
    unfolding wellFormed_def items using assms cells
    by (simp add: wellFormed_def s1_def distinct_map_filter)
  have wf2: "wellFormed (s1\<lparr> queryCache := [], cacheAccessOrder := ks \<rparr>)" for ks
    using wf1 by (simp add: wellFormed_def allItems_def)
  show ?thesis
    using wf1 wf2 by (simp add: cleanup_def Let_def s1_def [symmetric])
qed

lemma reachable_wellFormed: "reachable s \<Longrightarrow> wellFormed s"
  by (induction rule: reachable.induct)
     (simp_all add: wellFormed_new wellFormed_insert wellFormed_remove wellFormed_update
        wellFormed_query wellFormed_findNearest wellFormed_clear wellFormed_cleanup)


subsection \<open>A cache miss scans every cell that can hold a match\<close>






subsection \<open>Force bounds\<close>

text \<open>
  Claim C6. For every input of \<open>calculateSemanticForce\<close> (null nodes, nodes without a
  character, any finite distance, zero included, or a value that is not a number) the
  returned attraction and repulsion lie in [0,1] and the lateral component in [-1,1].
\<close>

theorem calculateSemanticForce_bounded:
  "0 \<le> attraction (calculateSemanticForce sf a b d) \<and>
   attraction (calculateSemanticForce sf a b d) \<le> 1 \<and>
   0 \<le> repulsion (calculateSemanticForce sf a b d) \<and>
   repulsion (calculateSemanticForce sf a b d) \<le> 1 \<and>
   - 1 \<le> lateral (calculateSemanticForce sf a b d) \<and>
   lateral (calculateSemanticForce sf a b d) \<le> 1"
  by (simp add: calculateSemanticForce_def Let_def split: option.splits)


subsection \<open>Range queries\<close>




subsection \<open>Nearest item\<close>

lemma findNearest_below_50:
  assumes "m < 50"
  shows "findNearest s pos (Some m) = (None, s)"
  using assms by (simp add: findNearest_def Let_def split: option.splits prod.splits)

text \<open>
  Claim C9. With \<open>maxDistance = 30\<close> the first radius 50 already exceeds the clamped
  distance and the loop leaves before any query: \<open>findNearest\<close> returns null although the
  item lies at distance 0 and a range query of radius 30 finds it.
\<close>

theorem findNearest_small_maxDistance_returns_null:
  "fst (findNearest (snd (insert_idx index800 (Some itemA))) (Some (Some 10, Some 10)) (Some 30))
     = None \<and>
   fst (query (snd (insert_idx index800 (Some itemA))) (Some (Some 10, Some 10)) (Some 30))
     = [itemA]"
  by (simp add: idx_eval itemA_def)

subsection \<open>Update\<close>

lemma insert_idx_invalid: "\<not> validPosition it \<Longrightarrow> insert_idx s (Some it) = (False, s)"
  by (auto simp: insert_idx_def validPosition_def split: option.splits prod.splits)

lemma findItemById_hits:
  assumes "findItemById s i \<noteq> None"
  shows "truthy_str i" "0 < length (filter (\<lambda>it. item_id it = i) (allItems s))"
proof -
  show t: "truthy_str i" using assms by (auto simp: findItemById_def split: if_splits)
  have "find (\<lambda>it. item_id it = i) (allItems s) \<noteq> None"
    using assms t by (simp add: findItemById_def)
  then have "\<exists>x. x \<in> set (allItems s) \<and> item_id x = i"
    unfolding find_None_iff by blast
  then have "filter (\<lambda>it. item_id it = i) (allItems s) \<noteq> []"
    unfolding filter_empty_conv by blast
  then show "0 < length (filter (\<lambda>it. item_id it = i) (allItems s))" by simp
qed

lemma remove_idx_hit:
  assumes "truthy_str i" "0 < length (filter (\<lambda>it. item_id it = i) (allItems s))"
  shows "snd (remove_idx s i) =
      clearQueryCache (s\<lparr> grid := removeFromCells i (grid s),
         itemCount := itemCount s - length (filter (\<lambda>it. item_id it = i) (allItems s)) \<rparr>)"
  using assms by (simp add: remove_idx_def Let_def)

lemma query_empty_cache_sound:
  assumes "queryCache s = []"
  shows "set (fst (query s pos radius)) \<subseteq> set (allItems s)"
proof (cases "\<exists>x y r. pos = Some (Some x, Some y) \<and> radius = Some r \<and> 0 \<le> r")
  case True
  then obtain x y r where "pos = Some (Some x, Some y)" "radius = Some r" "0 \<le> r" by blast
  then show ?thesis
    using assms performQuery_sound [of s x y r] by (auto simp: query_def Let_def)
next
  case False
  then have "fst (query s pos radius) = []"
    by (auto simp: query_def Let_def split: option.splits prod.splits)
  then show ?thesis by simp
qed

text \<open>
  Claim C10, as stated, fails for an item without an id: \<open>update\<close> returns false at its
  guard and leaves the index alone, while remove-then-insert stores the item.
\<close>

theorem update_idx_without_id_counterexample:
  "update_idx index800 (Some itemNoId) = (False, index800) \<and>
   fst (insert_idx (snd (remove_idx index800 (item_id itemNoId))) (Some itemNoId)) = True \<and>
   itemCount (snd (insert_idx (snd (remove_idx index800 (item_id itemNoId))) (Some itemNoId))) = 1"
  by (simp add: idx_eval itemNoId_def)

text \<open>
  Claim C10, amended. For every item with a truthy id, \<open>update\<close> is \<open>remove\<close> of the id
  followed by \<open>insert\<close> of the item. Consequently, in a reachable state where the id is
  indexed and the new position is missing or not a number, \<open>update\<close> returns false, the
  item count has decreased, the id is no longer found, and no query returns an item of
  that id.
\<close>

theorem update_idx_is_remove_then_insert:
  assumes "truthy_str (item_id it)"
  shows "update_idx s (Some it) = insert_idx (snd (remove_idx s (item_id it))) (Some it) \<and>
         (reachable s \<and> findItemById s (item_id it) \<noteq> None \<and> \<not> validPosition it \<longrightarrow>
            fst (update_idx s (Some it)) = False \<and>
            itemCount (snd (update_idx s (Some it))) < itemCount s \<and>
            findItemById (snd (update_idx s (Some it))) (item_id it) = None \<and>
            (\<forall>j \<in> set (fst (query (snd (update_idx s (Some it))) pos radius)).
               item_id j \<noteq> item_id it))"
proof (intro conjI impI)
  show eq: "update_idx s (Some it) = insert_idx (snd (remove_idx s (item_id it))) (Some it)"
    using assms by (simp add: update_idx_def)
  assume a: "reachable s \<and> findItemById s (item_id it) \<noteq> None \<and> \<not> validPosition it"
  define hits where "hits = length (filter (\<lambda>j. item_id j = item_id it) (allItems s))"
  define s' where "s' = clearQueryCache (s\<lparr> grid := removeFromCells (item_id it) (grid s),
                           itemCount := itemCount s - hits \<rparr>)"
  have wf: "wellFormed s" using a reachable_wellFormed by blast
  have hits: "0 < hits" using a findItemById_hits(2) [of s "item_id it"] by (simp add: hits_def)
  have rem: "snd (remove_idx s (item_id it)) = s'"
    using remove_idx_hit [OF assms, of s] hits by (simp add: hits_def s'_def)
  have upd: "update_idx s (Some it) = (False, s')"
    using a by (simp add: eq rem insert_idx_invalid)
  have items: "allItems s' = filter (\<lambda>j. item_id j \<noteq> item_id it) (allItems s)"
    by (simp add: s'_def clearQueryCache_def allItems_def removeFromCells_items)
  have count: "itemCount s = length (allItems s)" using wf by (simp add: wellFormed_def)
  have "hits \<le> length (allItems s)" by (simp add: hits_def)
  then have less: "itemCount s' < itemCount s"
    using hits count by (simp add: s'_def clearQueryCache_def)
  have gone: "findItemById s' (item_id it) = None"
    by (simp add: findItemById_def items find_None_iff)
  have "queryCache s' = []" by (simp add: s'_def clearQueryCache_def)
  then have "set (fst (query s' pos radius)) \<subseteq> set (allItems s')"
    by (rule query_empty_cache_sound)
  then have q: "\<forall>j \<in> set (fst (query s' pos radius)). item_id j \<noteq> item_id it"
    by (auto simp: items)
  show "fst (update_idx s (Some it)) = False" by (simp add: upd)
  show "itemCount (snd (update_idx s (Some it))) < itemCount s" using less by (simp add: upd)
  show "findItemById (snd (update_idx s (Some it))) (item_id it) = None" using gone by (simp add: upd)
  show "\<forall>j \<in> set (fst (query (snd (update_idx s (Some it))) pos radius)). item_id j \<noteq> item_id it"
    using q by (simp add: upd)
qed

theorem update_idx_is_remove_then_insert_witness:
  "truthy_str (item_id itemA_moved_nowhere) \<and>
   reachable (snd (insert_idx index800 (Some itemA))) \<and>
   findItemById (snd (insert_idx index800 (Some itemA))) (item_id itemA_moved_nowhere) \<noteq> None \<and>
   \<not> validPosition itemA_moved_nowhere \<and>
   fst (update_idx (snd (insert_idx index800 (Some itemA))) (Some itemA_moved_nowhere)) = False \<and>
   itemCount (snd (update_idx (snd (insert_idx index800 (Some itemA))) (Some itemA_moved_nowhere)))
     < itemCount (snd (insert_idx index800 (Some itemA)))"
proof -
  let ?s = "snd (insert_idx index800 (Some itemA))"
  have h1: "truthy_str (item_id itemA_moved_nowhere)"
    by (simp add: itemA_moved_nowhere_def truthy_str_def)
  have h2: "reachable ?s"
    unfolding index800_def by (intro reachable.intros)
  have h3: "findItemById ?s (item_id itemA_moved_nowhere) \<noteq> None"
    unfolding index800_with_itemA
    by (simp add: findItemById_def allItems_def truthy_str_def itemA_moved_nowhere_def itemA_def)
  have h4: "\<not> validPosition itemA_moved_nowhere"
    by (simp add: validPosition_def itemA_moved_nowhere_def)
  from update_idx_is_remove_then_insert [OF h1, of ?s] h1 h2 h3 h4 show ?thesis by blast
qed

subsection \<open>Force formula\<close>

text \<open>
  Claim C5. For a pair whose recorded similarity is 1 the semantic distance is 0; the code
  replaces a zero distance by 1 before flooring, so at spatial distance 1 the ratio is 1 and
  the repulsion 0, where the claimed formula floors the distance at 0.1 and gives ratio 10
  and repulsion 1.
\<close>

theorem calculateSemanticForce_zero_semantic_distance:
  "getSemanticDistance fieldSame (Some ''a'') (Some ''a'') = 0 \<and>
   getCollocationStrength fieldSame (Some ''a'') (Some ''a'') = 0 \<and>
   repulsion (calculateSemanticForce fieldSame (Some (Some ''a'')) (Some (Some ''a'')) (Some 1)) = 0 \<and>
   repulsion (claimedForce 1 0 0) = 1"
  by (simp add: fieldSame_def newSemanticField_def calculateSemanticForce_def
      getSemanticDistance_def getCollocationStrength_def generateInterferencePattern_def
      claimedForce_def truthy_str_def num_or_def bigramKey_def Let_def)

text \<open>
  Away from that case the code computes the claimed formula: for two nodes with characters,
  a semantic distance in (0, 1] and a collocation strength in [0, 1].
\<close>

lemma calculateSemanticForce_formula:
  assumes "truthy_str w1" "truthy_str w2"
      and "0 < getSemanticDistance sf w1 w2" "getSemanticDistance sf w1 w2 \<le> 1"
      and "0 \<le> getCollocationStrength sf w1 w2" "getCollocationStrength sf w1 w2 \<le> 1"
  shows "calculateSemanticForce sf (Some w1) (Some w2) (Some d)
         = claimedForce d (getSemanticDistance sf w1 w2) (getCollocationStrength sf w1 w2)"
proof -
  have spatial: "max (1/10) (num_or d (1/10)) = max (1/10) d"
    by (simp add: num_or_def)
  have semantic: "max (1/10) (min 1 (num_or (getSemanticDistance sf w1 w2) 1))
                  = max (1/10) (getSemanticDistance sf w1 w2)"
    using assms(3,4) by (simp add: num_or_def)
  have colloc: "max 0 (min 1 (num_or (getCollocationStrength sf w1 w2) 0))
                = getCollocationStrength sf w1 w2"
    using assms(5,6) by (simp add: num_or_def)
  have outer: "max lo (min hi (num_or (max lo (min hi v)) 0)) = max lo (min hi v)"
    if "lo \<le> 0" "0 \<le> hi" for lo hi v :: real
    using that by (simp add: num_or_def)
  show ?thesis
    using assms(1,2)
    by (simp add: calculateSemanticForce_def generateInterferencePattern_def claimedForce_def
        Let_def spatial semantic colloc outer)
qed

subsection \<open>The query cache\<close>

lemma js_round_nat: "js_round (real n) = int n"
  by (simp add: js_round_def)

lemma cacheKey_origin: "cacheKey 0 0 (real n) = (0, 0, int n)"
  using js_round_nat [of 0] by (simp add: cacheKey_def js_round_nat)

lemma performQuery_empty: "grid s = [] \<Longrightarrow> performQuery s x y r = []"
  by (simp add: performQuery_def Let_def)

lemma update_fresh: "k \<notin> fst ` set al \<Longrightarrow> AList.update k v al = al @ [(k, v)]"
  by (induction al) auto

lemma queryAtOrigin_fresh:
  assumes "grid s = []" "(0, 0, int n) \<notin> fst ` set (queryCache s)"
      and "length (queryCache s) < maxCacheSize"
  shows "queryAtOrigin n s =
           s\<lparr> queryCache := queryCache s @ [((0, 0, int n), [])],
              cacheAccessOrder := cacheAccessOrder s @ [(0, 0, int n)] \<rparr>"
proof -
  have miss: "map_of (queryCache s) (0, 0, int n) = None"
    using assms(2) by (simp add: map_of_eq_None_iff)
  show ?thesis
    using assms miss
    by (simp add: queryAtOrigin_def query_def cacheKey_origin performQuery_empty Let_def
        addToCache_def update_fresh)
qed

declare upt_rec_numeral [simp del]

lemma queryAtOrigin_run:
  assumes "grid s = []"
      and "\<forall>i\<ge>a. (0, 0, int i) \<notin> fst ` set (queryCache s)"
      and "length (queryCache s) + m \<le> maxCacheSize"
  shows "fold queryAtOrigin [a..<a + m] s =
           s\<lparr> queryCache := queryCache s @ map (\<lambda>i. ((0, 0, int i), [])) [a..<a + m],
              cacheAccessOrder := cacheAccessOrder s @ map (\<lambda>i. (0, 0, int i)) [a..<a + m] \<rparr>"
  using assms(3)
proof (induction m)
  case 0
  then show ?case by simp
next
  case (Suc m)
  let ?t = "s\<lparr> queryCache := queryCache s @ map (\<lambda>i. ((0, 0, int i), [])) [a..<a + m],
              cacheAccessOrder := cacheAccessOrder s @ map (\<lambda>i. (0, 0, int i)) [a..<a + m] \<rparr>"
  have ih: "fold queryAtOrigin [a..<a + m] s = ?t" using Suc by simp
  have g: "grid ?t = []" using assms(1) by simp
  have "a \<le> a + m" by simp
  with assms(2) have old: "(0, 0, int (a + m)) \<notin> fst ` set (queryCache s)" by blast
  have new: "(0, 0, int (a + m)) \<notin> (\<lambda>i. (0::int, 0::int, int i)) ` {a..<a + m}" by auto
  have fresh: "(0, 0, int (a + m)) \<notin> fst ` set (queryCache ?t)"
    using old new by (simp add: image_Un image_image del: of_nat_add)
  have len: "length (queryCache ?t) < maxCacheSize" using Suc.prems by simp
  show ?case
    using queryAtOrigin_fresh [OF g fresh len] by (simp add: ih)
qed

lemma queryAtOrigin_full_stale:
  assumes "grid s = []" "(0, 0, int n) \<notin> fst ` set (queryCache s)"
      and "maxCacheSize \<le> length (queryCache s)"
      and "cacheAccessOrder s = stale @ recent" "stale \<noteq> []"
      and "\<forall>k \<in> set stale. k \<notin> fst ` set (queryCache s)"
  shows "queryCache (queryAtOrigin n s) = queryCache s @ [((0, 0, int n), [])]"
proof -
  from assms(5) obtain oldest rest where st: "stale = oldest # rest" by (cases stale) auto
  have miss: "map_of (queryCache s) (0, 0, int n) = None"
    using assms(2) by (simp add: map_of_eq_None_iff)
  have "oldest \<notin> fst ` set (queryCache s)" using assms(6) st by simp
  then show ?thesis
    using assms(1-4) miss st
    by (simp add: queryAtOrigin_def query_def cacheKey_origin performQuery_empty Let_def
        addToCache_def update_fresh)
qed

lemma phase1:
  "fold queryAtOrigin [0..<51] index800 =
     index800\<lparr> queryCache := map (\<lambda>i. ((0, 0, int i), [])) [0..<51],
               cacheAccessOrder := map (\<lambda>i. (0, 0, int i)) [0..<51] \<rparr>"
  using queryAtOrigin_run [of index800 0 51]
  by (simp add: index800_eval maxCacheSize_def)

lemma phase2:
  "cleanup (fold queryAtOrigin [0..<51] index800) =
     index800\<lparr> queryCache := [],
               cacheAccessOrder := drop 1 (map (\<lambda>i. (0, 0, int i)) [0..<51]) \<rparr>"
  unfolding phase1
  by (simp add: cleanup_def Let_def index800_eval maxCacheSize_def sliceLast_def)

lemma phase3:
  "fold queryAtOrigin [51..<151] (cleanup (fold queryAtOrigin [0..<51] index800)) =
     index800\<lparr> queryCache := map (\<lambda>i. ((0, 0, int i), [])) [51..<151],
               cacheAccessOrder := drop 1 (map (\<lambda>i. (0, 0, int i)) [0..<51])
                                     @ map (\<lambda>i. (0, 0, int i)) [51..<151] \<rparr>"
  unfolding phase2
  using queryAtOrigin_run [of "index800\<lparr> queryCache := [],
      cacheAccessOrder := drop 1 (map (\<lambda>i. (0, 0, int i)) [0..<51]) \<rparr>" 51 100]
  by (simp add: index800_eval maxCacheSize_def)

lemma cacheOverflowRun_cache:
  "queryCache cacheOverflowRun = map (\<lambda>i. ((0, 0, int i), [])) [51..<152]"
proof -
  define stale where "stale = drop 1 (map (\<lambda>i. (0::int, 0::int, int i)) [0..<51])"
  define t where "t = index800\<lparr> queryCache := map (\<lambda>i. ((0, 0, int i), [])) [51..<151],
               cacheAccessOrder := stale @ map (\<lambda>i. (0, 0, int i)) [51..<151] \<rparr>"
  have split: "[51..<152] = [51..<151] @ [151]"
    using upt_Suc_append [of 51 151] by simp
  have run: "cacheOverflowRun = queryAtOrigin 151 t"
    unfolding cacheOverflowRun_def split fold_append t_def stale_def using phase3 by simp
  have g: "grid t = []" by (simp add: t_def index800_eval)
  have keys: "fst ` set (queryCache t) = (\<lambda>i. (0, 0, int i)) ` {51..<151}"
    by (simp add: t_def image_image)
  have k151: "(0, 0, int 151) \<notin> fst ` set (queryCache t)" unfolding keys by auto
  have full: "maxCacheSize \<le> length (queryCache t)" by (simp add: t_def maxCacheSize_def)
  have order: "cacheAccessOrder t = stale @ map (\<lambda>i. (0, 0, int i)) [51..<151]"
    by (simp add: t_def)
  have ne: "stale \<noteq> []"
  proof
    assume "stale = []"
    then have "length stale = 0" by simp
    then show False by (simp add: stale_def)
  qed
  have "set stale \<subseteq> (\<lambda>i. (0, 0, int i)) ` {0..<51}"
    unfolding stale_def using set_drop_subset [of 1 "map (\<lambda>i. (0::int, 0::int, int i)) [0..<51]"] by simp
  then have st: "\<forall>k \<in> set stale. k \<notin> fst ` set (queryCache t)" unfolding keys by auto
  have "queryCache (queryAtOrigin 151 t) = queryCache t @ [((0, 0, int 151), [])]"
    by (rule queryAtOrigin_full_stale [OF g k151 full order ne st])
  then show ?thesis
    unfolding run split by (simp add: t_def)
qed

lemma reachable_queryAtOrigin_run:
  "reachable s \<Longrightarrow> reachable (fold queryAtOrigin ns s)"
proof (induction ns arbitrary: s)
  case Nil then show ?case by simp
next
  case (Cons n ns)
  have "reachable (queryAtOrigin n s)"
    unfolding queryAtOrigin_def using Cons.prems by (rule r_query)
  then show ?case using Cons.IH by simp
qed

text \<open>
  Claim C3. \<open>cleanup\<close> clears the cache map but leaves fifty keys in the access order.
  After a hundred further distinct queries the cache is full; the next query shifts one of
  the stale keys off the access order, deletes nothing, and stores entry number 101.
\<close>

theorem queryCache_exceeds_maxCacheSize:
  "reachable cacheOverflowRun \<and>
   length (queryCache cacheOverflowRun) = 101 \<and> maxCacheSize = 100"
proof -
  have "reachable index800" unfolding index800_def by (rule r_new)
  then have "reachable cacheOverflowRun"
    unfolding cacheOverflowRun_def
    by (intro reachable_queryAtOrigin_run r_cleanup)
  then show ?thesis
    by (simp add: cacheOverflowRun_cache maxCacheSize_def)
qed


subsection \<open>Bounded collections of the semantic field\<close>

lemma splitPieces_word:
  assumes "\<forall>c \<in> set w. \<not> isSeparator c"
  shows "splitPieces cur (w @ rest) = splitPieces (cur @ w) rest"
  using assms by (induction w arbitrary: cur) auto

lemma isSeparator_space: "isSeparator CHR '' ''"
  by (simp add: isSeparator_def)

lemma splitPieces_words:
  assumes "\<forall>w \<in> set ws. w \<noteq> [] \<and> (\<forall>c \<in> set w. \<not> isSeparator c)"
  shows "splitPieces [] (concat (map (\<lambda>w. w @ '' '') ws)) = ws @ [[]]"
  using assms
proof (induction ws)
  case Nil then show ?case by simp
next
  case (Cons w ws)
  then obtain c cs where w: "w = c # cs" by (cases w) auto
  have nosep: "\<forall>c \<in> set w. \<not> isSeparator c" using Cons.prems by simp
  let ?rest = "concat (map (\<lambda>w. w @ '' '') ws)"
  have next_start: "dropWhile isSeparator ?rest = ?rest"
  proof (cases ws)
    case Nil then show ?thesis by simp
  next
    case (Cons v vs)
    then obtain d ds where "v = d # ds" "\<not> isSeparator d"
      using Cons.prems by (cases v) auto
    then show ?thesis using Cons by simp
  qed
  have "splitPieces [] (w @ CHR '' '' # ?rest) = splitPieces w (CHR '' '' # ?rest)"
    using splitPieces_word [OF nosep, of "[]"] by simp
  also have "\<dots> = w # splitPieces [] ?rest"
    by (simp add: isSeparator_space next_start)
  also have "\<dots> = w # ws @ [[]]" using Cons by simp
  finally show ?case by simp
qed

lemma burstWords_ok: "\<forall>w \<in> set burstWords. w \<noteq> [] \<and> (\<forall>c \<in> set w. \<not> isSeparator c)"
  by (auto simp: burstWords_def isSeparator_def)

lemma burstWords_length: "length burstWords = 2002"
  by (simp add: burstWords_def)

lemma burstText_nonempty: "burstText \<noteq> []"
proof
  assume "burstText = []"
  then have "burstWords = []" by (cases burstWords) (simp_all add: burstText_def)
  then have "length burstWords = 0" by simp
  then show False unfolding burstWords_length by simp
qed

lemma tokenize_burstText: "tokenize burstText = burstWords"
proof -
  note ne = burstText_nonempty
  have "filter (\<lambda>word. word \<noteq> []) burstWords = burstWords"
    using burstWords_ok by (simp add: filter_id_conv)
  then show ?thesis
    using ne splitPieces_words [OF burstWords_ok]
    by (simp add: tokenize_def burstText_def)
qed


lemma addSemanticConnection_other [simp]:
  "collocationMatrix (addSemanticConnection sf w1 w2 v) = collocationMatrix sf"
  "cleanupCounter (addSemanticConnection sf w1 w2 v) = cleanupCounter sf"
  by (simp_all add: addSemanticConnection_def cleanupSemanticGraph_def Let_def)

lemma similarity_fold_other:
  "collocationMatrix (fold (similarityStep sim words) ps sf) = collocationMatrix sf \<and>
   cleanupCounter (fold (similarityStep sim words) ps sf) = cleanupCounter sf"
  by (induction ps arbitrary: sf) (simp_all add: similarityStep_def Let_def split: prod.splits)

lemma collocation_fold_fresh:
  assumes "distinct (map (\<lambda>(w1, w2). bigramKey w1 w2) ps)"
      and "\<forall>(w1, w2) \<in> set ps. w1 \<noteq> [] \<and> w2 \<noteq> [] \<and> bigramKey w1 w2 \<notin> fst ` set m"
  shows "length (fold collocationStep ps m) = length m + length ps"
  using assms
proof (induction ps arbitrary: m)
  case Nil then show ?case by simp
next
  case (Cons p ps)
  obtain w1 w2 where p: "p = (w1, w2)" by (cases p)
  let ?k = "bigramKey w1 w2"
  let ?m = "collocationStep p m"
  have ne: "w1 \<noteq> []" "w2 \<noteq> []" and fresh: "?k \<notin> fst ` set m" using Cons.prems(2) p by auto
  have keys: "fst ` set ?m = insert ?k (fst ` set m)"
    using ne by (simp add: collocationStep_def p Let_def dom_update)
  have len: "length ?m = Suc (length m)"
    using ne fresh by (simp add: collocationStep_def p Let_def update_fresh)
  have d: "distinct (map (\<lambda>(w1, w2). bigramKey w1 w2) ps)" using Cons.prems(1) by simp
  have rest: "\<forall>(v1, v2) \<in> set ps. v1 \<noteq> [] \<and> v2 \<noteq> [] \<and> bigramKey v1 v2 \<notin> fst ` set ?m"
  proof (clarify, intro conjI)
    fix v1 v2 assume mem: "(v1, v2) \<in> set ps"
    then have a: "v1 \<noteq> [] \<and> v2 \<noteq> [] \<and> bigramKey v1 v2 \<notin> fst ` set m"
      using Cons.prems(2) by auto
    show "v1 \<noteq> []" "v2 \<noteq> []" using a by simp_all
    have "bigramKey v1 v2 \<in> set (map (\<lambda>(w1, w2). bigramKey w1 w2) ps)"
      using mem by force
    then have "bigramKey v1 v2 \<noteq> ?k" using Cons.prems(1) p by auto
    then show "bigramKey v1 v2 \<notin> fst ` set ?m" unfolding keys using a by simp
  qed
  from Cons.IH [OF d rest] len show ?case by simp
qed

lemma burst_pairs:
  "zip burstWords (tl burstWords) =
     map (\<lambda>i. (replicate (Suc i) CHR ''a'', replicate (Suc (Suc i)) CHR ''a'')) [0..<2001]"
proof (rule nth_equalityI)
  show "length (zip burstWords (tl burstWords)) =
        length (map (\<lambda>i. (replicate (Suc i) CHR ''a'', replicate (Suc (Suc i)) CHR ''a'')) [0..<2001])"
    by (simp add: burstWords_def)
next
  fix i assume "i < length (zip burstWords (tl burstWords))"
  then have i: "i < 2001" by (simp add: burstWords_def)
  then show "zip burstWords (tl burstWords) ! i =
        map (\<lambda>i. (replicate (Suc i) CHR ''a'', replicate (Suc (Suc i)) CHR ''a'')) [0..<2001] ! i"
    by (simp add: burstWords_def nth_tl)
qed

lemma burst_keys_distinct:
  "distinct (map (\<lambda>(w1, w2). bigramKey w1 w2) (zip burstWords (tl burstWords)))"
proof -
  have "inj_on (\<lambda>i. bigramKey (replicate (Suc i) CHR ''a'') (replicate (Suc (Suc i)) CHR ''a'')) {0..<2001}"
  proof (rule inj_onI)
    fix i j
    assume "bigramKey (replicate (Suc i) CHR ''a'') (replicate (Suc (Suc i)) CHR ''a'')
          = bigramKey (replicate (Suc j) CHR ''a'') (replicate (Suc (Suc j)) CHR ''a'')"
    then have "length (bigramKey (replicate (Suc i) CHR ''a'') (replicate (Suc (Suc i)) CHR ''a''))
          = length (bigramKey (replicate (Suc j) CHR ''a'') (replicate (Suc (Suc j)) CHR ''a''))"
      by simp
    then show "i = j" by (simp add: bigramKey_def)
  qed
  then show ?thesis
    unfolding burst_pairs by (simp add: distinct_map comp_def)
qed

text \<open>
  Claim C2. \<open>detectCollocationPatterns\<close> tests the cap once, before its loop. One call on
  a fresh field with a text of 2002 distinct words stores 2001 bigrams, one more than
  \<open>maxCollocationSize\<close>; the periodic cleanup only runs on every hundredth call.
\<close>

theorem collocationMatrix_exceeds_maxCollocationSize:
  "length (collocationMatrix (analyzeSemanticStructure sim newSemanticField burstText)) = 2001 \<and>
   maxCollocationSize = 2000"
proof -
  define sf1 where
    "sf1 = fold (similarityStep sim burstWords) (indexPairs (length burstWords)) newSemanticField"
  have cm: "collocationMatrix sf1 = []" and cc: "cleanupCounter sf1 = 0"
    using similarity_fold_other [of sim burstWords "indexPairs (length burstWords)" newSemanticField]
    by (simp_all add: sf1_def newSemanticField_def)
  have ne: "\<forall>(w1, w2) \<in> set (zip burstWords (tl burstWords)).
              w1 \<noteq> [] \<and> w2 \<noteq> [] \<and> bigramKey w1 w2 \<notin> fst ` set []"
    unfolding burst_pairs by auto
  have len: "length (fold collocationStep (zip burstWords (tl burstWords)) []) = 2001"
    using collocation_fold_fresh [OF burst_keys_distinct ne] by (simp add: burstWords_length)
  have det: "length (collocationMatrix (detectCollocationPatterns sf1 burstWords)) = 2001"
    using len
    by (simp add: detectCollocationPatterns_def cm burstWords_length maxCollocationSize_def Let_def)
  have cc2: "cleanupCounter (detectCollocationPatterns sf1 burstWords) = 0"
    by (simp add: detectCollocationPatterns_def cc burstWords_length cleanupCollocationMatrix_def
        Let_def)
  have "length burstWords \<noteq> 0" unfolding burstWords_length by simp
  then have "burstWords \<noteq> []" by auto
  then have "length (collocationMatrix (analyzeSemanticStructure sim newSemanticField burstText))
             = 2001"
    using det cc2 burstText_nonempty
    by (simp add: analyzeSemanticStructure_def tokenize_burstText Let_def sf1_def [symmetric]
        performCleanupIfNeeded_def)
  then show ?thesis by (simp add: maxCollocationSize_def)
qed

text \<open>
  The association graph and the reading history do keep their caps: the graph is trimmed
  before every single insertion and the history after every push.
\<close>

lemma update_length_le: "length (AList.update k v al) \<le> Suc (length al)"
  by (induction al) auto

lemma cleanupSemanticGraph_length:
  "length (semanticGraph (cleanupSemanticGraph sf)) \<le> 800"
  by (simp add: cleanupSemanticGraph_def keepCount_def maxSemanticGraphSize_def)

lemma addSemanticConnection_bounded:
  assumes "length (semanticGraph sf) \<le> maxSemanticGraphSize"
  shows "length (semanticGraph (addSemanticConnection sf w1 w2 v)) \<le> maxSemanticGraphSize"
proof (cases "w1 = [] \<or> w2 = []")
  case True then show ?thesis using assms by (auto simp: addSemanticConnection_def)
next
  case False
  define sf1 where "sf1 = (if maxSemanticGraphSize \<le> length (semanticGraph sf)
                           then cleanupSemanticGraph sf else sf)"
  have "length (semanticGraph sf1) < maxSemanticGraphSize"
    using cleanupSemanticGraph_length [of sf] by (auto simp: sf1_def maxSemanticGraphSize_def)
  moreover have "length (semanticGraph (addSemanticConnection sf w1 w2 v))
                 \<le> Suc (length (semanticGraph sf1))"
    using False by (simp add: addSemanticConnection_def Let_def sf1_def [symmetric] update_length_le)
  ultimately show ?thesis by linarith
qed

lemma addSemanticConnection_history [simp]:
  "readingHistory (addSemanticConnection sf w1 w2 v) = readingHistory sf"
  by (simp add: addSemanticConnection_def cleanupSemanticGraph_def Let_def)

lemma similarity_fold_bounded:
  assumes "length (semanticGraph sf) \<le> maxSemanticGraphSize"
  shows "length (semanticGraph (fold (similarityStep sim words) ps sf)) \<le> maxSemanticGraphSize \<and>
         readingHistory (fold (similarityStep sim words) ps sf) = readingHistory sf"
  using assms
proof (induction ps arbitrary: sf)
  case Nil then show ?case by simp
next
  case (Cons p ps)
  have "length (semanticGraph (similarityStep sim words p sf)) \<le> maxSemanticGraphSize"
    using Cons.prems addSemanticConnection_bounded
    by (simp add: similarityStep_def Let_def split: prod.splits)
  moreover have "readingHistory (similarityStep sim words p sf) = readingHistory sf"
    by (simp add: similarityStep_def Let_def split: prod.splits)
  ultimately show ?case using Cons.IH [of "similarityStep sim words p sf"] by simp
qed

lemma detectCollocationPatterns_other [simp]:
  "semanticGraph (detectCollocationPatterns sf words) = semanticGraph sf"
  "readingHistory (detectCollocationPatterns sf words) = readingHistory sf"
  by (simp_all add: detectCollocationPatterns_def cleanupCollocationMatrix_def Let_def)

lemma performCleanupIfNeeded_bounded:
  assumes "length (semanticGraph sf) \<le> maxSemanticGraphSize"
      and "length (readingHistory sf) \<le> maxHistorySize"
  shows "length (semanticGraph (performCleanupIfNeeded sf)) \<le> maxSemanticGraphSize \<and>
         length (readingHistory (performCleanupIfNeeded sf)) \<le> maxHistorySize"
  using assms
  by (simp add: performCleanupIfNeeded_def cleanupField_def Let_def cleanupCollocationMatrix_def)

lemma graph_and_history_bounded:
  assumes "length (semanticGraph sf) \<le> maxSemanticGraphSize"
      and "length (readingHistory sf) \<le> maxHistorySize"
  shows "length (semanticGraph (analyzeSemanticStructure sim sf txt)) \<le> maxSemanticGraphSize \<and>
         length (readingHistory (analyzeSemanticStructure sim sf txt)) \<le> maxHistorySize"
proof -
  define words where "words = tokenize txt"
  define sf1 where "sf1 = fold (similarityStep sim words) (indexPairs (length words)) sf"
  have b1: "length (semanticGraph sf1) \<le> maxSemanticGraphSize" "readingHistory sf1 = readingHistory sf"
    using similarity_fold_bounded [OF assms(1), of sim words "indexPairs (length words)"]
    by (simp_all add: sf1_def)
  have "length (semanticGraph (detectCollocationPatterns sf1 words)) \<le> maxSemanticGraphSize"
       "length (readingHistory (detectCollocationPatterns sf1 words)) \<le> maxHistorySize"
    using b1 assms(2) by simp_all
  from performCleanupIfNeeded_bounded [OF this] show ?thesis
    using assms
    by (simp add: analyzeSemanticStructure_def Let_def words_def [symmetric] sf1_def [symmetric])
qed

lemma addToReadingHistory_bounded:
  assumes "length (readingHistory sf) \<le> maxHistorySize"
  shows "length (readingHistory (addToReadingHistory sf e)) \<le> maxHistorySize"
  using assms by (simp add: addToReadingHistory_def Let_def maxHistorySize_def)


subsection \<open>Energy along a lineage\<close>

lemma calculateEnergyDecay_range:
  "1/10 \<le> calculateEnergyDecay prm sf nd nearby \<and> calculateEnergyDecay prm sf nd nearby \<le> 1"
  by (simp add: calculateEnergyDecay_def Let_def)

lemma child_energy:
  assumes "0 \<le> energy p"
  shows "0 \<le> energy (growSuccessor lay p nearby dir) \<and> energy (growSuccessor lay p nearby dir) \<le> energy p"
    and "0 \<le> energy (semanticBranchNode lay p dir) \<and> energy (semanticBranchNode lay p dir) \<le> energy p"
    and "0 \<le> energy (plainBranchNode lay p dir) \<and> energy (plainBranchNode lay p dir) \<le> energy p"
proof -
  have "0 \<le> calculateEnergyDecay (params lay) (semanticField lay) p nearby"
    using calculateEnergyDecay_range [of "params lay" "semanticField lay" p nearby] by linarith
  then show "0 \<le> energy (growSuccessor lay p nearby dir) \<and> energy (growSuccessor lay p nearby dir) \<le> energy p"
    using assms by (simp add: growSuccessor_def)
  show "0 \<le> energy (semanticBranchNode lay p dir) \<and> energy (semanticBranchNode lay p dir) \<le> energy p"
    using assms by (simp add: semanticBranchNode_def)
  show "0 \<le> energy (plainBranchNode lay p dir) \<and> energy (plainBranchNode lay p dir) \<le> energy p"
    using assms by (simp add: plainBranchNode_def)
qed

text \<open>
  Claim C8. Along every lineage that starts at a node of non-negative energy (the seeds
  start at \<open>initialEnergy\<close>), energy is never negative and never above the ancestor's.
  The successor created by \<open>grow\<close> has the parent's energy minus a decay in [0.1, 1],
  floored at 0; a semantic branch has 0.8 times and a plain branch 0.7 times the parent's
  energy, floored at 0.
\<close>

theorem energy_along_lineage:
  assumes "lineage a d" and "0 \<le> energy a"
  shows "0 \<le> energy d \<and> energy d \<le> energy a \<and>
         energy (growSuccessor lay d nearby dir)
           = max 0 (energy d - calculateEnergyDecay (params lay) (semanticField lay) d nearby) \<and>
         1/10 \<le> calculateEnergyDecay (params lay) (semanticField lay) d nearby \<and>
         calculateEnergyDecay (params lay) (semanticField lay) d nearby \<le> 1 \<and>
         energy (semanticBranchNode lay d dir) = max 0 (energy d * (8/10)) \<and>
         energy (plainBranchNode lay d dir) = max 0 (energy d * (7/10))"
proof -
  have "0 \<le> energy d \<and> energy d \<le> energy a"
    using assms
  proof (induction rule: lineage.induct)
    case (lineage_self a)
    then show ?case by simp
  next
    case (lineage_successor a p lay nearby dir)
    then show ?case using child_energy(1) [of p lay nearby dir] by linarith
  next
    case (lineage_semantic_branch a p lay dir)
    then show ?case using child_energy(2) [of p lay dir] by linarith
  next
    case (lineage_plain_branch a p lay dir)
    then show ?case using child_energy(3) [of p lay dir] by linarith
  qed
  then show ?thesis
    using calculateEnergyDecay_range [of "params lay" "semanticField lay" d nearby]
    by (simp add: growSuccessor_def semanticBranchNode_def plainBranchNode_def)
qed

theorem energy_along_lineage_witness:
  "lineage seedNode (semanticBranchNode seedLayout (growSuccessor seedLayout seedNode [] (1, 0)) (0, 1)) \<and>
   0 \<le> energy seedNode \<and>
   0 \<le> energy (semanticBranchNode seedLayout (growSuccessor seedLayout seedNode [] (1, 0)) (0, 1)) \<and>
   energy (semanticBranchNode seedLayout (growSuccessor seedLayout seedNode [] (1, 0)) (0, 1))
     \<le> energy seedNode"
proof -
  let ?d = "semanticBranchNode seedLayout (growSuccessor seedLayout seedNode [] (1, 0)) (0, 1)"
  have h1: "lineage seedNode ?d" by (intro lineage.intros)
  have h2: "0 \<le> energy seedNode" by (simp add: seedNode_def)
  from energy_along_lineage [OF h1 h2] h1 h2 show ?thesis by simp
qed

subsection \<open>Node ids\<close>

lemma crowded_cleanup:
  "performMemoryCleanup crowdedLayout = crowdedLayout \<lparr> nodes := map numberedNode [201..<1001] \<rparr>"
  by (simp add: performMemoryCleanup_def crowdedLayout_def maxNodes_def maxConnections_def
      keepCount_def Let_def drop_map)

lemma crowded_grow_nodes:
  "nodes (grow (\<lambda>i. straightInputs) crowdedLayout) =
     map numberedNode [201..<1001] @
       [growSuccessor (crowdedLayout \<lparr> nodes := map numberedNode [201..<1001],
            semanticField := addToReadingHistory newSemanticField 0 \<rparr>) (numberedNode 1000) [] (1, 0)]"
proof -
  have q: "growthQueue crowdedLayout = [numberedNode 1000]" "isGrowing crowdedLayout"
      "length (nodes crowdedLayout) = 1001" "sourceText crowdedLayout = replicate 2000 CHR ''a''"
      "semanticField crowdedLayout = newSemanticField"
    by (simp_all add: crowdedLayout_def)
  have n: "energy (numberedNode 1000) = 50" "textIndex (numberedNode 1000) = 0"
      "nodeChar (numberedNode 1000) = Some ''a''"
    by (simp_all add: numberedNode_def)
  show ?thesis
    by (simp add: grow_def q n maxNodes_def crowded_cleanup Let_def growNode_def
        straightInputs_def truthy_str_def checkSemanticIntersection_def checkIntersection_def
        addConnection_def)
qed

text \<open>
  Claim C4. An id is the length of the node list at creation. With 1001 nodes the cleanup
  at the head of \<open>grow\<close> drops the 201 oldest, the list is 800 long, and the next node
  is given the id 800, which the survivor created as node 800 still carries.
\<close>

theorem grow_reuses_node_id:
  "\<not> distinct (map node_id (nodes (grow (\<lambda>i. straightInputs) crowdedLayout)))"
proof -
  have ids: "node_id \<circ> numberedNode = (\<lambda>i. i)"
    by (simp add: fun_eq_iff numberedNode_def)
  have "800 \<in> set (map (node_id \<circ> numberedNode) [201..<1001])"
    unfolding ids by simp
  then show ?thesis
    unfolding crowded_grow_nodes
    by (simp add: growSuccessor_def del: set_map set_upt)
qed


subsection \<open>Distance between nodes created by growth\<close>

lemma sibling_gap: "sqrt ((18 - 9 * sqrt 3) * (18 - 9 * sqrt 3) + 9 * 9) < 15"
proof -
  have s: "sqrt 3 * sqrt 3 = 3" by simp
  have lo: "7/5 < sqrt 3" by (rule real_less_rsqrt) (simp add: power2_eq_square)
  have "(18 - 9 * sqrt 3) * (18 - 9 * sqrt 3) + 9 * 9 = 648 - 324 * sqrt 3"
    using s by (simp add: algebra_simps)
  also have "\<dots> < 15\<^sup>2" using lo by (simp add: power2_eq_square)
  finally show ?thesis by (intro real_less_lsqrt) simp_all
qed

lemma seed_grow_nodes:
  "nodes (grow (\<lambda>i. branchingInputs) seedLayout) =
     [seedNode,
      growSuccessor (seedLayout \<lparr> semanticField :=
          addToReadingHistory (newSemanticField \<lparr> cleanupCounter := 1 \<rparr>) 0 \<rparr>) seedNode [] (1, 0),
      semanticBranchNode (seedLayout \<lparr> semanticField :=
          addToReadingHistory (newSemanticField \<lparr> cleanupCounter := 1 \<rparr>) 0,
          nodes := [seedNode, growSuccessor (seedLayout \<lparr> semanticField :=
             addToReadingHistory (newSemanticField \<lparr> cleanupCounter := 1 \<rparr>) 0 \<rparr>) seedNode [] (1, 0)],
          connections := [(0, 1)] \<rparr>) seedNode (sqrt 3 / 2, 1/2)]"
proof -
  have q: "growthQueue seedLayout = [seedNode]" "isGrowing seedLayout"
      "nodes seedLayout = [seedNode]" "sourceText seedLayout = replicate 20 CHR ''a''"
      "semanticField seedLayout = newSemanticField \<lparr> cleanupCounter := 1 \<rparr>"
      "connections seedLayout = []"
    by (simp_all add: seedLayout_def)
  have n: "energy seedNode = 100" "textIndex seedNode = 0" "nodeChar seedNode = Some ''a''"
      "node_id seedNode = 0"
    by (simp_all add: seedNode_def)
  have id1: "node_id (growSuccessor lay seedNode [] (1, 0)) = length (nodes lay)" for lay
    by (simp add: growSuccessor_def)
  show ?thesis
    by (simp add: grow_def q n id1 maxNodes_def Let_def growNode_def branchingInputs_def
        truthy_str_def checkSemanticIntersection_def checkIntersection_def addConnection_def
        createSemanticBranch_def enqueue_def)
qed

text \<open>
  Claim C7. The branch node is checked against the neighbour list taken before the
  successor of the same tick was stored. From a lone seed, a successor along the x axis and
  a branch along 30 degrees are both accepted and lie about 9.3 units apart.
\<close>

theorem branch_lands_on_successor:
  "map parent (nodes (grow (\<lambda>i. branchingInputs) seedLayout)) = [None, Some 0, Some 0] \<and>
   getDistance (nodePosition (nodes (grow (\<lambda>i. branchingInputs) seedLayout) ! 1))
               (nodePosition (nodes (grow (\<lambda>i. branchingInputs) seedLayout) ! 2)) < 15"
proof -
  have p: "nodePosition seedNode = (520, 300)" "parent seedNode = None" "node_id seedNode = 0"
    by (simp_all add: seedNode_def)
  have c: "characterSpacing (params seedLayout) = 18"
    by (simp add: seedLayout_def defaultParams_def)
  show ?thesis
    unfolding seed_grow_nodes
    using sibling_gap
    by (simp add: growSuccessor_def semanticBranchNode_def advance_def getDistance_def p c Let_def)
qed


end
